theory Spec2Isabelle
  imports Main "HOL-Library.Word"
begin

unbundle bit_operations_syntax

section \<open>Native crash handler: data\<close>

text \<open>
  The repository holds two near-identical handlers: \<^verbatim>\<open>native_crash_handler.cpp\<close> (basic) and
  \<^verbatim>\<open>enhanced_native_crash_handler.cpp\<close> (enhanced: register dump, memory dump, 128 frames).
  One embedding covers both; the \<open>variant\<close> argument selects the file, and every place where
  the two files differ is a test of it.
\<close>

datatype variant = Basic | Enhanced

text \<open>\<^verbatim>\<open>uintptr_t\<close> and \<^verbatim>\<open>void*\<close> on the 64-bit targets; pointer arithmetic wraps.\<close>

type_synonym addr = "64 word"
type_synonym byte = "8 word"

text \<open>\<^verbatim>\<open>#define MAX_STACK_FRAMES 64\<close> (basic), \<^verbatim>\<open>128\<close> (enhanced);
  \<^verbatim>\<open>#define MEMORY_DUMP_SIZE 256\<close>.\<close>

definition MAX_STACK_FRAMES :: "variant \<Rightarrow> nat" where
  "MAX_STACK_FRAMES v = (case v of Basic \<Rightarrow> 64 | Enhanced \<Rightarrow> 128)"

definition MEMORY_DUMP_SIZE :: nat where
  "MEMORY_DUMP_SIZE = 256"

subsection \<open>Stack unwinding\<close>

text \<open>\<^verbatim>\<open>struct UnwindState { uintptr_t* frames; size_t frame_count; size_t max_frames; }\<close>.
  The array behind \<open>frames\<close> is a list updated by index.\<close>

record UnwindState =
  us_frames :: "addr list"
  us_frame_count :: nat
  us_max_frames :: nat

datatype Unwind_Reason_Code = URC_NO_REASON | URC_END_OF_STACK

text \<open>\<^verbatim>\<open>unwind_callback\<close>; the context is given by its instruction pointer, the value of
  \<^verbatim>\<open>_Unwind_GetIP(context)\<close>.\<close>

definition unwind_callback :: "addr \<Rightarrow> UnwindState \<Rightarrow> Unwind_Reason_Code \<times> UnwindState" where
  "unwind_callback pc state =
     (if us_frame_count state \<ge> us_max_frames state then (URC_END_OF_STACK, state)
      else if pc \<noteq> 0
        then (URC_NO_REASON,
              state\<lparr>us_frames := (us_frames state)[us_frame_count state := pc],
                    us_frame_count := us_frame_count state + 1\<rparr>)
        else (URC_NO_REASON, state))"

text \<open>How a walk ended: the unwinder ran out of frames, or the callback asked it to stop.\<close>

datatype walk_end = EndOfStack | StoppedByCallback

text \<open>\<^verbatim>\<open>_Unwind_Backtrace(unwind_callback, &state)\<close>, the platform's unwinder: it calls the
  callback once per frame, innermost first, until the frames it can find are exhausted or the
  callback returns anything but \<^verbatim>\<open>_URC_NO_REASON\<close>. The first argument lists the instruction
  pointers of the frames the unwinder can find: finitely many (an unwinder caught in an endless
  chain of frames is not modelled).\<close>

fun Unwind_Backtrace :: "addr list \<Rightarrow> UnwindState \<Rightarrow> walk_end \<times> UnwindState" where
  "Unwind_Backtrace [] state = (EndOfStack, state)"
| "Unwind_Backtrace (pc # rest) state =
     (case unwind_callback pc state of
        (URC_NO_REASON, state') \<Rightarrow> Unwind_Backtrace rest state'
      | (URC_END_OF_STACK, state') \<Rightarrow> (StoppedByCallback, state'))"

text \<open>\<^verbatim>\<open>capture_stack_trace(frames, max_frames)\<close>: the frame count it returns, the array as
  it leaves it, and how the walk ended (the source drops the unwinder's result).\<close>

definition capture_stack_trace_state :: "addr list \<Rightarrow> addr list \<Rightarrow> nat \<Rightarrow> walk_end \<times> UnwindState" where
  "capture_stack_trace_state stack frames max_frames =
     Unwind_Backtrace stack \<lparr>us_frames = frames, us_frame_count = 0, us_max_frames = max_frames\<rparr>"

definition capture_stack_trace :: "addr list \<Rightarrow> addr list \<Rightarrow> nat \<Rightarrow> nat \<times> addr list" where
  "capture_stack_trace stack frames max_frames =
     (let state = snd (capture_stack_trace_state stack frames max_frames)
      in (us_frame_count state, us_frames state))"

text \<open>The trace a capture recorded: the first \<open>frame_count\<close> entries of the array.\<close>

definition captured_trace :: "nat \<times> addr list \<Rightarrow> addr list" where
  "captured_trace r = take (fst r) (snd r)"

subsection \<open>Signals and dispositions\<close>

text \<open>The signal numbers of Linux's \<^verbatim>\<open><signal.h>\<close> (the same on arm, arm64, x86 and x86_64),
  and the two sentinel handler values.\<close>

definition SIGILL :: nat where "SIGILL = 4"
definition SIGTRAP :: nat where "SIGTRAP = 5"
definition SIGABRT :: nat where "SIGABRT = 6"
definition SIGBUS :: nat where "SIGBUS = 7"
definition SIGFPE :: nat where "SIGFPE = 8"
definition SIGSEGV :: nat where "SIGSEGV = 11"

definition SIG_DFL :: addr where "SIG_DFL = 0"
definition SIG_IGN :: addr where "SIG_IGN = 1"

definition SA_SIGINFO :: "32 word" where "SA_SIGINFO = 0x00000004"
definition SA_ONSTACK :: "32 word" where "SA_ONSTACK = 0x08000000"
definition SA_RESTART :: "32 word" where "SA_RESTART = 0x10000000"

text \<open>The signals \<^verbatim>\<open>initialize\<close> installs the handler for, in its order.\<close>

definition handled_signals :: "nat list" where
  "handled_signals = [SIGSEGV, SIGABRT, SIGFPE, SIGILL, SIGBUS, SIGTRAP]"

text \<open>\<^verbatim>\<open>struct sigaction\<close> is declared by the platform's \<^verbatim>\<open><signal.h>\<close>, not by the
  repository. On Android (bionic), for every ABI, \<^verbatim>\<open>sa_handler\<close> and \<^verbatim>\<open>sa_sigaction\<close> are the
  two members of one union, as POSIX allows ("the storage occupied by sa_handler and
  sa_sigaction may overlap"): one stored pointer, \<open>sa_union\<close> here, read under two names.\<close>

record sigaction_t =
  sa_union :: addr
  sa_flags :: "32 word"
  sa_mask :: "nat set"

definition sa_sigaction :: "sigaction_t \<Rightarrow> addr" where
  "sa_sigaction sa = sa_union sa"

definition sa_handler :: "sigaction_t \<Rightarrow> addr" where
  "sa_handler sa = sa_union sa"

subsection \<open>The operating system as the handler sees it\<close>

text \<open>\<^verbatim>\<open>Dl_info\<close> as \<^verbatim>\<open>dladdr\<close> fills it; a null name is \<open>None\<close>.\<close>

record Dl_info =
  dli_fname :: "string option"
  dli_sname :: "string option"
  dli_saddr :: addr

text \<open>The machine context of an arm64 target (\<^verbatim>\<open>uc_mcontext\<close>): the branch of
  \<^verbatim>\<open>capture_registers\<close> under \<^verbatim>\<open>__aarch64__\<close>. One branch is compiled per target; the others
  copy other fields in the same way.\<close>

record ucontext_t =
  uc_pc :: addr
  uc_sp :: addr
  uc_pstate :: addr
  uc_regs :: "nat \<Rightarrow> addr"

record siginfo_t =
  si_code :: int
  si_addr :: addr

text \<open>What calling through a saved handler pointer does: the address is no code and the call
  faults, the callee returns, or it never returns (it ends the process its own way).\<close>

datatype callee = NotCode | Returns | NoReturn

text \<open>The answers of the system during one run of the handler: process and thread id, the
  clock, the API level the library was built for, the thread's name when
  \<^verbatim>\<open>pthread_getname_np\<close> succeeds, the readable memory, the frames the unwinder finds,
  \<^verbatim>\<open>dladdr\<close>, whether \<^verbatim>\<open>open\<close> of the report file succeeds, and what a call through a saved
  handler pointer does.\<close>

record os =
  os_pid :: int
  os_tid :: int
  os_time :: int
  os_api :: nat
  os_thread_name :: "string option"
  os_memory :: "addr \<Rightarrow> byte option"
  os_stack :: "addr list"
  os_dladdr :: "addr \<Rightarrow> Dl_info option"
  os_open_ok :: bool
  os_callee :: "addr \<Rightarrow> callee"

subsection \<open>Crash information and the report\<close>

record registers_t =
  r_pc :: addr
  r_sp :: addr
  r_lr :: addr
  r_cpsr :: addr
  r_x :: "addr list"

text \<open>\<^verbatim>\<open>struct CrashInfo\<close> and \<^verbatim>\<open>struct EnhancedCrashInfo\<close>; the basic file has no registers
  and no memory dump, and leaves those fields as they are.\<close>

record crash_info =
  ci_signal :: nat
  ci_code :: int
  fault_address :: addr
  signal_name :: string
  thread_name :: string
  ci_pid :: int
  ci_tid :: int
  crash_time :: int
  stack_frames :: "addr list"
  frame_count :: nat
  registers :: registers_t
  memory_before :: "byte list"
  memory_after :: "byte list"
  memory_readable :: bool

text \<open>One \<^verbatim>\<open>write\<close> of the report: a constructor per format string of \<^verbatim>\<open>write_crash_to_file\<close>,
  holding the arguments of its \<^verbatim>\<open>snprintf\<close> (the rendering of a number as text is not
  modelled), and \<open>Text\<close> for a literal. The variant is kept where the two files' format
  strings differ.\<close>

datatype chunk =
    Header variant string nat string int addr string int int int nat
  | Text string
  | RegsLine addr addr addr addr
  | RegLine nat addr
  | FrameSym variant nat addr string string addr
  | FrameUnknown variant nat addr
  | MemBeforeHdr addr
  | MemAfterHdr addr
  | HexOffset nat
  | HexByte byte

text \<open>What the process did that can be seen from outside, in order.\<close>

datatype event =
    Open string bool
  | Close string
  | CallSigaction addr nat
  | CallHandler addr nat
  | Raise nat

text \<open>How a handler run left the process: still running, ended by \<^verbatim>\<open>_exit\<close>, killed by a
  signal's default action, faulted inside the handler at an address, gone into a chained
  handler that never returned, or past the end of \<^verbatim>\<open>g_old_handlers\<close> (undefined behaviour).\<close>

datatype status = Running | Exited int | Killed nat | Faulted addr | Gone | OutOfBounds

text \<open>The process: the file-level variables of the source (\<^verbatim>\<open>handling_crash\<close> is the
  handler's static flag), the kernel's table of dispositions, the file system, and what was
  observed.\<close>

record proc =
  handling_crash :: bool
  g_crash_info :: crash_info
  g_crash_file_path :: string
  g_old_handlers :: "nat \<Rightarrow> sigaction_t"
  g_initialized :: bool
  dispositions :: "nat \<Rightarrow> sigaction_t"
  files :: "string \<Rightarrow> chunk list option"
  trace :: "event list"
  status :: status

text \<open>A step either lets the handler go on or ends its run.\<close>

datatype 'a flow = Continue 'a | Stop 'a

subsection \<open>Helpers of the C library\<close>

text \<open>\<^verbatim>\<open>snprintf(buffer, n, ...)\<close> keeps at most \<open>n - 1\<close> characters of the text.\<close>

definition snprintf :: "nat \<Rightarrow> string \<Rightarrow> string" where
  "snprintf n s = take (n - 1) s"

text \<open>\<^verbatim>\<open>strncpy(dst, src, n)\<close> into a zeroed buffer.\<close>

definition strncpy :: "string \<Rightarrow> nat \<Rightarrow> string" where
  "strncpy src n = take n src"

text \<open>\<^verbatim>\<open>%d\<close>.\<close>

definition digit :: "nat \<Rightarrow> char" where
  "digit n = ''0123456789'' ! (n mod 10)"

function show_nat :: "nat \<Rightarrow> string" where
  "show_nat n = (if n < 10 then [digit n] else show_nat (n div 10) @ [digit n])"
  by pat_completeness auto
termination
  by (relation "measure id") auto

definition show_int :: "int \<Rightarrow> string" where
  "show_int i = (if i < 0 then CHR ''-'' # show_nat (nat (- i)) else show_nat (nat i))"

subsection \<open>The functions of the source\<close>

definition get_signal_name :: "nat \<Rightarrow> string" where
  "get_signal_name sig =
     (if sig = SIGSEGV then ''SIGSEGV''
      else if sig = SIGABRT then ''SIGABRT''
      else if sig = SIGFPE then ''SIGFPE''
      else if sig = SIGILL then ''SIGILL''
      else if sig = SIGBUS then ''SIGBUS''
      else if sig = SIGTRAP then ''SIGTRAP''
      else ''UNKNOWN'')"

definition get_signal_description :: "nat \<Rightarrow> string" where
  "get_signal_description sig =
     (if sig = SIGSEGV then ''Segmentation fault (invalid memory access)''
      else if sig = SIGABRT then ''Abort signal (abnormal termination)''
      else if sig = SIGFPE then ''Floating point exception''
      else if sig = SIGILL then ''Illegal instruction''
      else if sig = SIGBUS then ''Bus error (invalid memory alignment)''
      else if sig = SIGTRAP then ''Trace/breakpoint trap''
      else ''Unknown signal'')"

text \<open>\<^verbatim>\<open>get_thread_name(buffer, size)\<close>: the name when the API level has
  \<^verbatim>\<open>pthread_getname_np\<close> and it succeeds, else \<^verbatim>\<open>"Thread-%d"\<close> of the thread id.\<close>

definition get_thread_name :: "os \<Rightarrow> nat \<Rightarrow> string" where
  "get_thread_name os n =
     (if os_api os \<ge> 26
      then (case os_thread_name os of
              Some name \<Rightarrow> name
            | None \<Rightarrow> snprintf n (''Thread-'' @ show_int (os_tid os)))
      else snprintf n (''Thread-'' @ show_int (os_tid os)))"

text \<open>\<^verbatim>\<open>capture_registers\<close>, arm64.\<close>

definition capture_registers :: "crash_info \<Rightarrow> ucontext_t option \<Rightarrow> crash_info" where
  "capture_registers info context =
     (case context of
        None \<Rightarrow> info
      | Some uc \<Rightarrow>
          info\<lparr>registers :=
            \<lparr>r_pc = uc_pc uc, r_sp = uc_sp uc, r_lr = uc_regs uc 30, r_cpsr = uc_pstate uc,
             r_x = map (uc_regs uc) [0..<31]\<rparr>\<rparr>)"

text \<open>The two loops of \<^verbatim>\<open>capture_memory_dump\<close>: \<open>n\<close> single-byte copies from ascending
  addresses. The copy is a plain \<^verbatim>\<open>__builtin_memcpy\<close>: where the memory cannot be read the
  access faults (\<open>Inl\<close> of the address) and nothing after it runs.\<close>

fun read_bytes :: "(addr \<Rightarrow> byte option) \<Rightarrow> addr \<Rightarrow> nat \<Rightarrow> addr + byte list" where
  "read_bytes mem a 0 = Inr []"
| "read_bytes mem a (Suc n) =
     (case mem a of
        None \<Rightarrow> Inl a
      | Some b \<Rightarrow>
          (case read_bytes mem (a + 1) n of
             Inl fault \<Rightarrow> Inl fault
           | Inr bs \<Rightarrow> Inr (b # bs)))"

definition capture_memory_dump :: "(addr \<Rightarrow> byte option) \<Rightarrow> crash_info \<Rightarrow> addr + crash_info" where
  "capture_memory_dump mem info0 =
     (let info = info0\<lparr>memory_readable := False\<rparr>
      in if fault_address info = 0 then Inr info
         else
           let addr = fault_address info
           in case read_bytes mem (addr - of_nat MEMORY_DUMP_SIZE) MEMORY_DUMP_SIZE of
                Inl fault \<Rightarrow> Inl fault
              | Inr bytes_before \<Rightarrow>
                  (case read_bytes mem addr MEMORY_DUMP_SIZE of
                     Inl fault \<Rightarrow> Inl fault
                   | Inr bytes_after \<Rightarrow>
                       Inr (info\<lparr>memory_before := bytes_before, memory_after := bytes_after,
                                 memory_readable := True\<rparr>)))"

text \<open>The stack-trace loop of \<^verbatim>\<open>write_crash_to_file\<close>: one line per frame.\<close>

definition frame_line :: "variant \<Rightarrow> (addr \<Rightarrow> Dl_info option) \<Rightarrow> crash_info \<Rightarrow> nat \<Rightarrow> chunk" where
  "frame_line v dladdr info i =
     (case dladdr (stack_frames info ! i) of
        Some dl_info \<Rightarrow>
          FrameSym v i (stack_frames info ! i)
            (case dli_fname dl_info of Some n \<Rightarrow> n | None \<Rightarrow> ''???'')
            (case dli_sname dl_info of Some n \<Rightarrow> n | None \<Rightarrow> ''???'')
            (stack_frames info ! i - dli_saddr dl_info)
      | None \<Rightarrow> FrameUnknown v i (stack_frames info ! i))"

definition stack_lines :: "variant \<Rightarrow> (addr \<Rightarrow> Dl_info option) \<Rightarrow> crash_info \<Rightarrow> chunk list" where
  "stack_lines v dladdr info = map (frame_line v dladdr info) [0..<frame_count info]"

text \<open>The hex dump of one buffer: an offset, sixteen bytes and a newline per line.\<close>

definition hex_dump :: "byte list \<Rightarrow> chunk list" where
  "hex_dump buf =
     concat (map (\<lambda>i. HexOffset i
                       # map (\<lambda>j. HexByte (buf ! (i + j)))
                           (filter (\<lambda>j. i + j < MEMORY_DUMP_SIZE) [0..<16])
                       @ [Text ''\<newline>''])
               (filter (\<lambda>i. i mod 16 = 0) [0..<MEMORY_DUMP_SIZE]))"

definition register_lines :: "crash_info \<Rightarrow> chunk list" where
  "register_lines info =
     RegsLine (r_pc (registers info)) (r_sp (registers info))
              (r_lr (registers info)) (r_cpsr (registers info))
     # map (\<lambda>i. RegLine i (r_x (registers info) ! i)) [0..<31]"

text \<open>Everything \<^verbatim>\<open>write_crash_to_file\<close> writes once the file is open, in order.\<close>

definition report_chunks :: "variant \<Rightarrow> (addr \<Rightarrow> Dl_info option) \<Rightarrow> crash_info \<Rightarrow> chunk list" where
  "report_chunks v dladdr info =
     [Header v (signal_name info) (ci_signal info) (get_signal_description (ci_signal info))
        (ci_code info) (fault_address info) (thread_name info) (ci_pid info) (ci_tid info)
        (crash_time info) (frame_count info)]
     @ (if v = Enhanced
        then [Text ''REGISTERS:\<newline>''] @ register_lines info @ [Text ''\<newline>'']
        else [])
     @ [Text (if v = Enhanced then ''STACK TRACE:\<newline>'' else ''Stack Trace:\<newline>'')]
     @ stack_lines v dladdr info
     @ (if v = Enhanced \<and> memory_readable info
        then [Text ''\<newline>MEMORY DUMP:\<newline>'', MemBeforeHdr (fault_address info)]
             @ hex_dump (memory_before info)
             @ [MemAfterHdr (fault_address info)]
             @ hex_dump (memory_after info)
        else [])"

text \<open>\<^verbatim>\<open>write(fd, ...)\<close> on the open report file: the bytes go to the end of what the file holds.
  The source ignores the result of \<^verbatim>\<open>write\<close>; every write is taken to succeed.\<close>

definition sys_write :: "string \<Rightarrow> proc \<Rightarrow> chunk \<Rightarrow> proc" where
  "sys_write path p c =
     p\<lparr>files := (files p)(path \<mapsto> (case files p path of Some cs \<Rightarrow> cs @ [c] | None \<Rightarrow> [c]))\<rparr>"

text \<open>\<^verbatim>\<open>open(path, O_CREAT | O_WRONLY | O_TRUNC, 0644)\<close> that succeeds: the file exists and is
  empty.\<close>

definition sys_open_trunc :: "string \<Rightarrow> proc \<Rightarrow> proc" where
  "sys_open_trunc path p =
     p\<lparr>files := (files p)(path \<mapsto> []), trace := trace p @ [Open path True]\<rparr>"

definition write_crash_to_file :: "variant \<Rightarrow> os \<Rightarrow> crash_info \<Rightarrow> proc \<Rightarrow> proc" where
  "write_crash_to_file v os info p =
     (if \<not> os_open_ok os then p\<lparr>trace := trace p @ [Open (g_crash_file_path p) False]\<rparr>
      else
        let p1 = sys_open_trunc (g_crash_file_path p) p;
            p2 = foldl (sys_write (g_crash_file_path p)) p1 (report_chunks v (os_dladdr os) info)
        in p2\<lparr>trace := trace p2 @ [Close (g_crash_file_path p)]\<rparr>)"

text \<open>A call through a saved handler pointer.\<close>

definition call_through :: "os \<Rightarrow> addr \<Rightarrow> event \<Rightarrow> proc \<Rightarrow> proc flow" where
  "call_through os f ev p =
     (case os_callee os f of
        Returns \<Rightarrow> Continue (p\<lparr>trace := trace p @ [ev]\<rparr>)
      | NoReturn \<Rightarrow> Stop (p\<lparr>trace := trace p @ [ev], status := Gone\<rparr>)
      | NotCode \<Rightarrow> Stop (p\<lparr>trace := trace p @ [ev], status := Faulted f\<rparr>))"

text \<open>The part of \<^verbatim>\<open>signal_handler\<close> under "Call original handler": which function the two
  tests select, if any, and the call that is then made.\<close>

definition original_handler_call :: "sigaction_t \<Rightarrow> nat \<Rightarrow> (addr \<times> event) option" where
  "original_handler_call old_handler sig =
     (if sa_sigaction old_handler \<noteq> 0
      then Some (sa_sigaction old_handler, CallSigaction (sa_sigaction old_handler) sig)
      else if sa_handler old_handler \<noteq> 0 \<and> sa_handler old_handler \<noteq> SIG_DFL
              \<and> sa_handler old_handler \<noteq> SIG_IGN
      then Some (sa_handler old_handler, CallHandler (sa_handler old_handler) sig)
      else None)"

text \<open>\<^verbatim>\<open>g_old_handlers\<close> has 32 entries; an index past them is undefined behaviour.\<close>

definition call_original_handler :: "os \<Rightarrow> nat \<Rightarrow> proc \<Rightarrow> proc flow" where
  "call_original_handler os sig p =
     (if \<not> sig < 32 then Stop (p\<lparr>status := OutOfBounds\<rparr>)
      else
        case original_handler_call (g_old_handlers p sig) sig of
          None \<Rightarrow> Continue p
        | Some (f, ev) \<Rightarrow> call_through os f ev p)"

text \<open>\<^verbatim>\<open>signal(sig, handler)\<close> of the C library: the disposition becomes \<open>handler\<close>.\<close>

definition signal_libc :: "nat \<Rightarrow> addr \<Rightarrow> proc \<Rightarrow> proc" where
  "signal_libc sig handler p =
     p\<lparr>dispositions := (dispositions p)
         (sig := \<lparr>sa_union = handler, sa_flags = SA_RESTART, sa_mask = {}\<rparr>)\<rparr>"

text \<open>The default action of the kernel for a signal: every signal ends the process but those
  that are ignored or stop and continue it (\<^verbatim>\<open>SIGCHLD\<close> 17, \<^verbatim>\<open>SIGCONT\<close> 18, \<^verbatim>\<open>SIGSTOP\<close> 19,
  \<^verbatim>\<open>SIGTSTP\<close> 20, \<^verbatim>\<open>SIGTTIN\<close> 21, \<^verbatim>\<open>SIGTTOU\<close> 22, \<^verbatim>\<open>SIGURG\<close> 23, \<^verbatim>\<open>SIGWINCH\<close> 28).\<close>

definition default_kills :: "nat \<Rightarrow> bool" where
  "default_kills sig = (sig \<notin> {17, 18, 19, 20, 21, 22, 23, 28})"

definition kernel_default_action :: "nat \<Rightarrow> proc \<Rightarrow> proc" where
  "kernel_default_action sig p = (if default_kills sig then p\<lparr>status := Killed sig\<rparr> else p)"

text \<open>\<^verbatim>\<open>raise(sig)\<close>: under the default disposition the kernel's default action follows; the
  delivery to an installed handler is not followed further.\<close>

definition raise_libc :: "nat \<Rightarrow> proc \<Rightarrow> proc" where
  "raise_libc sig p =
     (if sa_handler (dispositions p sig) = SIG_DFL
      then kernel_default_action sig (p\<lparr>trace := trace p @ [Raise sig]\<rparr>)
      else p\<lparr>trace := trace p @ [Raise sig]\<rparr>)"

text \<open>\<^verbatim>\<open>memset(&g_crash_info, 0, sizeof(g_crash_info))\<close>.\<close>

definition zero_info :: "variant \<Rightarrow> crash_info" where
  "zero_info v =
     \<lparr>ci_signal = 0, ci_code = 0, fault_address = 0, signal_name = [], thread_name = [],
      ci_pid = 0, ci_tid = 0, crash_time = 0,
      stack_frames = replicate (MAX_STACK_FRAMES v) 0, frame_count = 0,
      registers = \<lparr>r_pc = 0, r_sp = 0, r_lr = 0, r_cpsr = 0, r_x = replicate 31 0\<rparr>,
      memory_before = replicate MEMORY_DUMP_SIZE 0, memory_after = replicate MEMORY_DUMP_SIZE 0,
      memory_readable = False\<rparr>"

text \<open>"Collect crash information" up to the thread name.\<close>

definition collect_crash_info :: "variant \<Rightarrow> os \<Rightarrow> nat \<Rightarrow> siginfo_t \<Rightarrow> crash_info" where
  "collect_crash_info v os sig info =
     (zero_info v)
       \<lparr>ci_signal := sig, ci_code := si_code info, fault_address := si_addr info,
        ci_pid := os_pid os, ci_tid := os_tid os, crash_time := os_time os,
        signal_name := strncpy (get_signal_name sig) 31,
        thread_name := get_thread_name os 128\<rparr>"

text \<open>The stack trace into \<^verbatim>\<open>g_crash_info\<close>.\<close>

definition with_stack_trace :: "variant \<Rightarrow> os \<Rightarrow> crash_info \<Rightarrow> crash_info" where
  "with_stack_trace v os info =
     (let r = capture_stack_trace (os_stack os) (stack_frames info) (MAX_STACK_FRAMES v)
      in info\<lparr>stack_frames := snd r, frame_count := fst r\<rparr>)"

text \<open>"Call original handler" and "Re-raise signal": the end of \<^verbatim>\<open>signal_handler\<close>.\<close>

definition chain_and_reraise :: "os \<Rightarrow> nat \<Rightarrow> proc \<Rightarrow> proc" where
  "chain_and_reraise os sig p =
     (case call_original_handler os sig p of
        Stop p' \<Rightarrow> p'
      | Continue p' \<Rightarrow> raise_libc sig (signal_libc sig SIG_DFL p'))"

text \<open>What follows the capture of the signal's data (and, in the enhanced file, of registers
  and memory): the stack trace, the report, the chained handler, the re-raise.\<close>

definition report_chain_reraise :: "variant \<Rightarrow> os \<Rightarrow> nat \<Rightarrow> crash_info \<Rightarrow> proc \<Rightarrow> proc" where
  "report_chain_reraise v os sig info p =
     chain_and_reraise os sig
       (write_crash_to_file v os (with_stack_trace v os info)
          (p\<lparr>g_crash_info := with_stack_trace v os info\<rparr>))"

text \<open>\<^verbatim>\<open>signal_handler(sig, info, context)\<close>. A run that faults in the memory dump ends
  there with the status \<open>Faulted\<close> (the bytes copied before the fault are not kept): the
  kernel then kills the process or enters the handler again, which is the next entry of
  \<open>run_faults\<close> below.\<close>

definition signal_handler ::
  "variant \<Rightarrow> os \<Rightarrow> nat \<Rightarrow> siginfo_t \<Rightarrow> ucontext_t option \<Rightarrow> proc \<Rightarrow> proc" where
  "signal_handler v os sig info context p =
     (if handling_crash p then p\<lparr>status := Exited 1\<rparr>
      else
        let p1 = p\<lparr>handling_crash := True\<rparr>;
            ci = collect_crash_info v os sig info
        in case v of
             Basic \<Rightarrow> report_chain_reraise v os sig ci p1
           | Enhanced \<Rightarrow>
               (case capture_memory_dump (os_memory os) (capture_registers ci context) of
                  Inl fault \<Rightarrow>
                    p1\<lparr>g_crash_info := capture_registers ci context, status := Faulted fault\<rparr>
                | Inr ci' \<Rightarrow> report_chain_reraise v os sig ci' p1))"

text \<open>Two conditions on the system that the statements below need. The run gets past the
  capture: the basic file reads no memory, the enhanced one must not fault in
  \<^verbatim>\<open>capture_memory_dump\<close>. And the chained call, if one is made, comes back.\<close>

definition capture_completes ::
  "variant \<Rightarrow> os \<Rightarrow> nat \<Rightarrow> siginfo_t \<Rightarrow> ucontext_t option \<Rightarrow> bool" where
  "capture_completes v os sig info context =
     (case v of
        Basic \<Rightarrow> True
      | Enhanced \<Rightarrow>
          (case capture_memory_dump (os_memory os)
                  (capture_registers (collect_crash_info v os sig info) context) of
             Inl _ \<Rightarrow> False
           | Inr _ \<Rightarrow> True))"

definition original_handler_returns :: "os \<Rightarrow> sigaction_t \<Rightarrow> nat \<Rightarrow> bool" where
  "original_handler_returns os old_handler sig =
     (case original_handler_call old_handler sig of
        None \<Rightarrow> True
      | Some (f, ev) \<Rightarrow> os_callee os f = Returns)"

text \<open>The event of the chained call, if one is made.\<close>

definition chain_events :: "sigaction_t \<Rightarrow> nat \<Rightarrow> event list" where
  "chain_events old_handler sig =
     (case original_handler_call old_handler sig of None \<Rightarrow> [] | Some (f, ev) \<Rightarrow> [ev])"

text \<open>\<^verbatim>\<open>sigaction(sig, &sa, &g_old_handlers[sig])\<close>: the kernel hands back the disposition it
  had and takes the new one.\<close>

definition sigaction_sys :: "nat \<Rightarrow> sigaction_t \<Rightarrow> proc \<Rightarrow> proc" where
  "sigaction_sys sig sa p =
     p\<lparr>g_old_handlers := (g_old_handlers p)(sig := dispositions p sig),
       dispositions := (dispositions p)(sig := sa)\<rparr>"

text \<open>\<^verbatim>\<open>Java_com_crashreporter_library_NativeCrashHandler_initialize\<close>; \<open>self\<close> is the address
  of \<^verbatim>\<open>signal_handler\<close>, \<open>crash_dir\<close> the characters of the Java string.\<close>

definition initialize :: "addr \<Rightarrow> string \<Rightarrow> proc \<Rightarrow> proc" where
  "initialize self crash_dir p =
     (if g_initialized p then p
      else
        let p0 = p\<lparr>g_crash_file_path := snprintf 256 (crash_dir @ ''/native_crash.txt'')\<rparr>;
            sa = \<lparr>sa_union = self, sa_flags = SA_SIGINFO OR SA_ONSTACK, sa_mask = {}\<rparr>;
            p6 = foldl (\<lambda>q sig. sigaction_sys sig sa q) p0 handled_signals
        in p6\<lparr>g_initialized := True\<rparr>)"

definition isInitialized :: "proc \<Rightarrow> bool" where
  "isInitialized p = g_initialized p"

subsection \<open>Faults over the life of a process\<close>

text \<open>One delivery of a handled signal: the handler's arguments and the system's answers
  during that run.\<close>

record fault =
  ft_sig :: nat
  ft_info :: siginfo_t
  ft_context :: "ucontext_t option"
  ft_os :: os

definition deliver :: "variant \<Rightarrow> proc \<Rightarrow> fault \<Rightarrow> proc" where
  "deliver v p f = signal_handler v (ft_os f) (ft_sig f) (ft_info f) (ft_context f) p"

text \<open>Any number of handler entries, one after the other, each on the state the one before
  left. The run goes on whatever the status, so it also covers an entry that a dead process
  could not make.\<close>

definition run_faults :: "variant \<Rightarrow> proc \<Rightarrow> fault list \<Rightarrow> proc" where
  "run_faults v p fs = foldl (deliver v) p fs"

text \<open>The reports written so far: the successful opens of a report file.\<close>

definition reports_written :: "proc \<Rightarrow> nat" where
  "reports_written p = length (filter (\<lambda>e. case e of Open _ ok \<Rightarrow> ok | _ \<Rightarrow> False) (trace p))"

text \<open>The process when the library is loaded: the statics are zero, nothing has been
  observed; the kernel's dispositions and the file system are as given.\<close>

definition startup ::
  "variant \<Rightarrow> (nat \<Rightarrow> sigaction_t) \<Rightarrow> (string \<Rightarrow> chunk list option) \<Rightarrow> proc" where
  "startup v disp fs =
     \<lparr>handling_crash = False, g_crash_info = zero_info v, g_crash_file_path = [],
      g_old_handlers = (\<lambda>_. \<lparr>sa_union = 0, sa_flags = 0, sa_mask = {}\<rparr>),
      g_initialized = False, dispositions = disp, files = fs, trace = [], status = Running\<rparr>"

subsection \<open>A concrete process\<close>

text \<open>The default disposition and the ignoring one, as the kernel hands them back.\<close>

definition ex_default :: sigaction_t where
  "ex_default = \<lparr>sa_union = SIG_DFL, sa_flags = 0, sa_mask = {}\<rparr>"

definition ex_ignore :: sigaction_t where
  "ex_ignore = \<lparr>sa_union = SIG_IGN, sa_flags = 0, sa_mask = {}\<rparr>"

text \<open>A handler some other library installed before, and the disposition \<^verbatim>\<open>initialize\<close>
  installs with \<open>self = 4096\<close>.\<close>

definition ex_previous :: sigaction_t where
  "ex_previous = \<lparr>sa_union = 8192, sa_flags = SA_SIGINFO, sa_mask = {}\<rparr>"

definition ex_installed :: sigaction_t where
  "ex_installed = \<lparr>sa_union = 4096, sa_flags = SA_SIGINFO OR SA_ONSTACK, sa_mask = {}\<rparr>"

text \<open>A system with no readable memory anywhere near the fault addresses used below, three
  frames on the stack (one without an instruction pointer), one resolvable symbol, no thread
  name, and nothing to call at address 1.\<close>

definition ex_os :: "bool \<Rightarrow> os" where
  "ex_os open_ok =
     \<lparr>os_pid = 100, os_tid = 107, os_time = 5, os_api = 26, os_thread_name = None,
      os_memory = (\<lambda>_. None), os_stack = [16, 0, 32],
      os_dladdr = (\<lambda>a. if a = 16
                        then Some \<lparr>dli_fname = Some ''libx.so'', dli_sname = None, dli_saddr = 10\<rparr>
                        else None),
      os_open_ok = open_ok,
      os_callee = (\<lambda>a. if a = 1 then NotCode else Returns)\<rparr>"

text \<open>A process that has called \<^verbatim>\<open>initialize\<close> once, from the given dispositions.\<close>

definition ex_proc :: "variant \<Rightarrow> (nat \<Rightarrow> sigaction_t) \<Rightarrow> proc" where
  "ex_proc v disp = initialize 4096 ''/data/crash'' (startup v disp Map.empty)"

definition ex_fault :: "nat \<Rightarrow> addr \<Rightarrow> bool \<Rightarrow> fault" where
  "ex_fault sig a open_ok =
     \<lparr>ft_sig = sig, ft_info = \<lparr>si_code = 1, si_addr = a\<rparr>, ft_context = None,
      ft_os = ex_os open_ok\<rparr>"

section \<open>Stack unwinding: properties\<close>

lemma Unwind_Backtrace_trace:
  assumes "us_frame_count state \<le> us_max_frames state"
    and "us_max_frames state \<le> length (us_frames state)"
  shows "take (us_frame_count (snd (Unwind_Backtrace stack state)))
              (us_frames (snd (Unwind_Backtrace stack state)))
         = take (us_max_frames state)
              (take (us_frame_count state) (us_frames state) @ filter (\<lambda>pc. pc \<noteq> 0) stack)"
  using assms
proof (induction stack arbitrary: state)
  case Nil
  then show ?case by simp
next
  case (Cons pc rest)
  show ?case
  proof (cases "us_frame_count state \<ge> us_max_frames state")
    case True
    with Cons.prems have "us_frame_count state = us_max_frames state" by simp
    with Cons.prems show ?thesis by (simp add: unwind_callback_def)
  next
    case full: False
    show ?thesis
    proof (cases "pc = 0")
      case True
      with full Cons show ?thesis by (simp add: unwind_callback_def)
    next
      case False
      let ?s = "state\<lparr>us_frames := (us_frames state)[us_frame_count state := pc],
                       us_frame_count := us_frame_count state + 1\<rparr>"
      have step: "Unwind_Backtrace (pc # rest) state = Unwind_Backtrace rest ?s"
        using full False by (simp add: unwind_callback_def)
      have pre: "us_frame_count ?s \<le> us_max_frames ?s" "us_max_frames ?s \<le> length (us_frames ?s)"
        using full Cons.prems by simp_all
      have upd: "take (us_frame_count ?s) (us_frames ?s)
                 = take (us_frame_count state) (us_frames state) @ [pc]"
        using full Cons.prems by (simp add: take_Suc_conv_app_nth)
      show ?thesis
        unfolding step Cons.IH [OF pre] upd using False by simp
    qed
  qed
qed

lemma Unwind_Backtrace_Cons:
  "Unwind_Backtrace (pc # rest) state =
     (if us_max_frames state \<le> us_frame_count state then (StoppedByCallback, state)
      else if pc \<noteq> 0
        then Unwind_Backtrace rest
               (state\<lparr>us_frames := (us_frames state)[us_frame_count state := pc],
                      us_frame_count := us_frame_count state + 1\<rparr>)
        else Unwind_Backtrace rest state)"
  by (simp add: unwind_callback_def)

lemma Unwind_Backtrace_count:
  assumes "us_frame_count state \<le> us_max_frames state"
  shows "us_frame_count (snd (Unwind_Backtrace stack state)) \<le> us_max_frames state"
  using assms
proof (induction stack arbitrary: state)
  case Nil
  then show ?case by simp
next
  case (Cons pc rest)
  let ?s = "state\<lparr>us_frames := (us_frames state)[us_frame_count state := pc],
                   us_frame_count := us_frame_count state + 1\<rparr>"
  show ?case
    using Cons.IH [of ?s] Cons.IH [of state] Cons.prems
    by (simp add: Unwind_Backtrace_Cons del: Unwind_Backtrace.simps)
qed

lemma Unwind_Backtrace_stopped:
  assumes "us_frame_count state \<le> us_max_frames state"
    and "fst (Unwind_Backtrace stack state) = StoppedByCallback"
  shows "us_frame_count (snd (Unwind_Backtrace stack state)) = us_max_frames state"
  using assms
proof (induction stack arbitrary: state)
  case Nil
  then show ?case by simp
next
  case (Cons pc rest)
  let ?s = "state\<lparr>us_frames := (us_frames state)[us_frame_count state := pc],
                   us_frame_count := us_frame_count state + 1\<rparr>"
  show ?case
    using Cons.IH [of ?s] Cons.IH [of state] Cons.prems
    by (simp add: Unwind_Backtrace_Cons del: Unwind_Backtrace.simps split: if_splits)
qed

lemma Unwind_Backtrace_end:
  assumes "fst (Unwind_Backtrace stack state) = EndOfStack"
  shows "us_frame_count (snd (Unwind_Backtrace stack state))
         = us_frame_count state + length (filter (\<lambda>pc. pc \<noteq> 0) stack)"
  using assms
proof (induction stack arbitrary: state)
  case Nil
  then show ?case by simp
next
  case (Cons pc rest)
  let ?s = "state\<lparr>us_frames := (us_frames state)[us_frame_count state := pc],
                   us_frame_count := us_frame_count state + 1\<rparr>"
  show ?case
    using Cons.IH [of ?s] Cons.IH [of state] Cons.prems
    by (simp add: Unwind_Backtrace_Cons del: Unwind_Backtrace.simps split: if_splits)
qed


lemma Unwind_Backtrace_stops_iff:
  "fst (Unwind_Backtrace stack state) = StoppedByCallback \<longleftrightarrow>
     (\<exists>k<length stack.
        us_max_frames state \<le> us_frame_count state + length (filter (\<lambda>pc. pc \<noteq> 0) (take k stack)))"
proof (induction stack arbitrary: state)
  case Nil
  then show ?case by simp
next
  case (Cons pc rest)
  let ?s = "state\<lparr>us_frames := (us_frames state)[us_frame_count state := pc],
                   us_frame_count := us_frame_count state + 1\<rparr>"
  let ?nz = "\<lambda>xs. length (filter (\<lambda>pc. pc \<noteq> (0::addr)) xs)"
  show ?case
  proof (cases "us_max_frames state \<le> us_frame_count state")
    case True
    then have "0 < length (pc # rest) \<and> us_max_frames state \<le> us_frame_count state + ?nz (take 0 (pc # rest))"
      by simp
    then have "\<exists>k<length (pc # rest). us_max_frames state \<le> us_frame_count state + ?nz (take k (pc # rest))"
      by blast
    with True show ?thesis
      by (simp add: Unwind_Backtrace_Cons del: Unwind_Backtrace.simps)
  next
    case False
    have shift: "(\<exists>k<length (pc # rest). us_max_frames state \<le> us_frame_count state + ?nz (take k (pc # rest)))
              \<longleftrightarrow> (\<exists>k<length rest. us_max_frames state \<le> us_frame_count state + ?nz (pc # take k rest))"
      (is "?L \<longleftrightarrow> ?R")
    proof
      assume ?L
      then obtain k where k: "k < length (pc # rest)"
          "us_max_frames state \<le> us_frame_count state + ?nz (take k (pc # rest))"
        by blast
      with False obtain j where "k = Suc j" by (cases k) auto
      with k show ?R by auto
    next
      assume ?R
      then obtain k where "k < length rest"
          "us_max_frames state \<le> us_frame_count state + ?nz (pc # take k rest)"
        by blast
      then have "Suc k < length (pc # rest) \<and>
          us_max_frames state \<le> us_frame_count state + ?nz (take (Suc k) (pc # rest))"
        by simp
      then show ?L by blast
    qed
    show ?thesis
    proof (cases "pc = 0")
      case True
      with False show ?thesis
        unfolding shift using Cons.IH [of state]
        by (simp add: Unwind_Backtrace_Cons del: Unwind_Backtrace.simps)
    next
      case nz: False
      with False show ?thesis
        unfolding shift using Cons.IH [of ?s]
        by (simp add: Unwind_Backtrace_Cons del: Unwind_Backtrace.simps)
    qed
  qed
qed

text \<open>
  Claim C5. Every unwind run records at most \<open>max_frames\<close> frames: the recorded trace is the
  first \<open>max_frames\<close> nonzero instruction pointers of the frames the unwinder finds. The walk is
  stopped by the callback exactly when some frame is reached with \<open>max_frames\<close> addresses
  already recorded; otherwise it ends when the unwinder runs out of frames, and the trace is
  then simply shorter (all the nonzero instruction pointers there were). The array must hold
  \<open>max_frames\<close> entries, as it does in the handler.
\<close>

theorem capture_stack_trace_bounded:
  assumes "max_frames \<le> length frames"
  shows "fst (capture_stack_trace stack frames max_frames) \<le> max_frames
    \<and> captured_trace (capture_stack_trace stack frames max_frames)
        = take max_frames (filter (\<lambda>pc. pc \<noteq> 0) stack)
    \<and> (fst (capture_stack_trace_state stack frames max_frames) = StoppedByCallback \<longleftrightarrow>
         (\<exists>k<length stack. max_frames \<le> length (filter (\<lambda>pc. pc \<noteq> 0) (take k stack))))
    \<and> (fst (capture_stack_trace_state stack frames max_frames) = StoppedByCallback \<longrightarrow>
         fst (capture_stack_trace stack frames max_frames) = max_frames)
    \<and> (fst (capture_stack_trace_state stack frames max_frames) = EndOfStack \<longrightarrow>
         captured_trace (capture_stack_trace stack frames max_frames)
           = filter (\<lambda>pc. pc \<noteq> 0) stack)"
proof -
  let ?s0 = "\<lparr>us_frames = frames, us_frame_count = 0, us_max_frames = max_frames\<rparr>"
  let ?r = "Unwind_Backtrace stack ?s0"
  have count: "us_frame_count (snd ?r) \<le> max_frames"
    using Unwind_Backtrace_count [of ?s0 stack] by simp
  have trace: "take (us_frame_count (snd ?r)) (us_frames (snd ?r))
               = take max_frames (filter (\<lambda>pc. pc \<noteq> 0) stack)"
    using Unwind_Backtrace_trace [of ?s0 stack] assms by simp
  have stops: "fst ?r = StoppedByCallback \<longleftrightarrow>
         (\<exists>k<length stack. max_frames \<le> length (filter (\<lambda>pc. pc \<noteq> 0) (take k stack)))"
    using Unwind_Backtrace_stops_iff [of stack ?s0] by simp
  have stopped: "fst ?r = StoppedByCallback \<longrightarrow> us_frame_count (snd ?r) = max_frames"
    using Unwind_Backtrace_stopped [of ?s0 stack] by simp
  have ended: "fst ?r = EndOfStack \<longrightarrow>
         take (us_frame_count (snd ?r)) (us_frames (snd ?r)) = filter (\<lambda>pc. pc \<noteq> 0) stack"
  proof
    assume e: "fst ?r = EndOfStack"
    have "us_frame_count (snd ?r) = length (filter (\<lambda>pc. pc \<noteq> 0) stack)"
      using Unwind_Backtrace_end [OF e] by simp
    with count trace show "take (us_frame_count (snd ?r)) (us_frames (snd ?r))
        = filter (\<lambda>pc. pc \<noteq> 0) stack"
      by simp
  qed
  show ?thesis
    using count trace stops stopped ended
    by (simp add: capture_stack_trace_def capture_stack_trace_state_def captured_trace_def Let_def)
qed

text \<open>
  Claim C10. Every address of a captured trace is nonzero: the callback stores an instruction
  pointer only when it is nonzero.
\<close>

theorem captured_trace_nonzero:
  assumes "max_frames \<le> length frames"
  shows "\<forall>pc \<in> set (captured_trace (capture_stack_trace stack frames max_frames)). pc \<noteq> 0"
proof -
  let ?s0 = "\<lparr>us_frames = frames, us_frame_count = 0, us_max_frames = max_frames\<rparr>"
  have eq: "captured_trace (capture_stack_trace stack frames max_frames)
        = take max_frames (filter (\<lambda>pc. pc \<noteq> 0) stack)"
    using Unwind_Backtrace_trace [of ?s0 stack] assms
    by (simp add: capture_stack_trace_def capture_stack_trace_state_def captured_trace_def Let_def)
  show ?thesis
    unfolding eq
  proof
    fix pc assume "pc \<in> set (take max_frames (filter (\<lambda>pc. pc \<noteq> 0) stack))"
    then have "pc \<in> set (filter (\<lambda>pc. pc \<noteq> 0) stack)" by (rule in_set_takeD)
    then show "pc \<noteq> 0" by simp
  qed
qed

text \<open>Three frames with instruction pointers and one without, into an array of two; then
  fewer frames than the array holds.\<close>

lemma capture_example_stop: "capture_stack_trace_state [16, 0, 32, 48] [0, 0] 2
   = (StoppedByCallback, \<lparr>us_frames = [16, 32], us_frame_count = 2, us_max_frames = 2\<rparr>)"
  by (simp add: capture_stack_trace_state_def unwind_callback_def)

lemma capture_example_end: "capture_stack_trace_state [16, 0] [0, 0] 2
   = (EndOfStack, \<lparr>us_frames = [16, 0], us_frame_count = 1, us_max_frames = 2\<rparr>)"
  by (simp add: capture_stack_trace_state_def unwind_callback_def)

theorem capture_stack_trace_bounded_witness:
  "(2::nat) \<le> length [0, 0 :: addr]
    \<and> fst (capture_stack_trace [16, 0, 32, 48] [0, 0] 2) = 2
    \<and> captured_trace (capture_stack_trace [16, 0, 32, 48] [0, 0] 2) = [16, 32]
    \<and> fst (capture_stack_trace_state [16, 0, 32, 48] [0, 0] 2) = StoppedByCallback
    \<and> fst (capture_stack_trace_state [16, 0] [0, 0] 2) = EndOfStack
    \<and> captured_trace (capture_stack_trace [16, 0] [0, 0] 2) = [16]"
proof -
  have len: "(2::nat) \<le> length [0, 0 :: addr]" by simp
  note a = capture_stack_trace_bounded [OF len, of "[16, 0, 32, 48]"]
  note b = capture_stack_trace_bounded [OF len, of "[16, 0]"]
  have s1: "fst (capture_stack_trace_state [16, 0, 32, 48] [0, 0] 2) = StoppedByCallback"
    by (simp add: capture_example_stop)
  have s2: "fst (capture_stack_trace_state [16, 0] [0, 0] 2) = EndOfStack"
    by (simp add: capture_example_end)
  have c1: "fst (capture_stack_trace [16, 0, 32, 48] [0, 0] 2) = 2"
    using a s1 by blast
  have t1: "captured_trace (capture_stack_trace [16, 0, 32, 48] [0, 0] 2) = [16, 32]"
    using a by simp
  have t2: "captured_trace (capture_stack_trace [16, 0] [0, 0] 2) = [16]"
    using b s2 by simp
  show ?thesis using len s1 s2 c1 t1 t2 by blast
qed

theorem captured_trace_nonzero_witness:
  "(3::nat) \<le> length [0, 0, 0 :: addr]
    \<and> captured_trace (capture_stack_trace [0, 7, 0, 9] [0, 0, 0] 3) = [7, 9]
    \<and> (7::addr) \<noteq> 0 \<and> (9::addr) \<noteq> 0"
proof -
  have len: "(3::nat) \<le> length [0, 0, 0 :: addr]" by simp
  have t: "captured_trace (capture_stack_trace [0, 7, 0, 9] [0, 0, 0] 3) = [7, 9]"
    by (simp add: capture_stack_trace_def capture_stack_trace_state_def captured_trace_def
        unwind_callback_def)
  from captured_trace_nonzero [OF len, of "[0, 7, 0, 9]"]
  have "(7::addr) \<noteq> 0 \<and> (9::addr) \<noteq> 0" unfolding t by simp
  with len t show ?thesis by blast
qed


section \<open>The report file\<close>

lemma sys_write_eq:
  "files p path = Some xs \<Longrightarrow> sys_write path p c = p\<lparr>files := (files p)(path \<mapsto> xs @ [c])\<rparr>"
  by (simp add: sys_write_def)

lemma foldl_sys_write_files:
  "files p path = Some xs \<Longrightarrow> files (foldl (sys_write path) p cs) = (files p)(path \<mapsto> xs @ cs)"
proof (induction cs arbitrary: p xs)
  case Nil
  then show ?case by (simp add: fun_upd_idem)
next
  case (Cons c cs)
  have "files (sys_write path p c) path = Some (xs @ [c])"
    using Cons.prems by (simp add: sys_write_eq)
  from Cons.IH [OF this] show ?case
    using Cons.prems by (auto simp: sys_write_eq fun_eq_iff)
qed

lemma foldl_sys_write_only_files:
  "\<exists>fs. foldl (sys_write path) p cs = p\<lparr>files := fs\<rparr>"
proof (induction cs arbitrary: p)
  case Nil
  have "foldl (sys_write path) p [] = p\<lparr>files := files p\<rparr>" by simp
  then show ?case by (rule exI [where x = "files p"])
next
  case (Cons c cs)
  obtain f0 where f0: "sys_write path p c = p\<lparr>files := f0\<rparr>"
    by (simp add: sys_write_def)
  from Cons.IH [of "p\<lparr>files := f0\<rparr>"] obtain fs
    where "foldl (sys_write path) (p\<lparr>files := f0\<rparr>) cs = p\<lparr>files := f0\<rparr>\<lparr>files := fs\<rparr>"
    by blast
  then have "foldl (sys_write path) p (c # cs) = p\<lparr>files := fs\<rparr>"
    by (simp add: f0)
  then show ?case by blast
qed

lemma foldl_sys_write:
  assumes "files p path = Some xs"
  shows "foldl (sys_write path) p cs = p\<lparr>files := (files p)(path \<mapsto> xs @ cs)\<rparr>"
proof -
  obtain fs where fs: "foldl (sys_write path) p cs = p\<lparr>files := fs\<rparr>"
    using foldl_sys_write_only_files by blast
  then have "files (foldl (sys_write path) p cs) = fs" by simp
  with foldl_sys_write_files [OF assms, of cs] fs show ?thesis by simp
qed

lemma write_crash_to_file_eq:
  "write_crash_to_file v os info p =
     (if os_open_ok os
      then p\<lparr>files := (files p)(g_crash_file_path p \<mapsto> report_chunks v (os_dladdr os) info),
             trace := trace p @ [Open (g_crash_file_path p) True, Close (g_crash_file_path p)]\<rparr>
      else p\<lparr>trace := trace p @ [Open (g_crash_file_path p) False]\<rparr>)"
proof (cases "os_open_ok os")
  case False
  then show ?thesis by (simp add: write_crash_to_file_def)
next
  case True
  let ?path = "g_crash_file_path p"
  let ?p1 = "sys_open_trunc ?path p"
  have "files ?p1 ?path = Some []" by (simp add: sys_open_trunc_def)
  from foldl_sys_write [OF this, of "report_chunks v (os_dladdr os) info"]
  show ?thesis using True
    by (simp add: write_crash_to_file_def Let_def sys_open_trunc_def)
qed

section \<open>The chained handler and the re-raise: what they leave alone\<close>

lemma call_original_handler_eq:
  "call_original_handler os sig p =
     (if \<not> sig < 32 then Stop (p\<lparr>status := OutOfBounds\<rparr>)
      else case original_handler_call (g_old_handlers p sig) sig of
             None \<Rightarrow> Continue p
           | Some (f, ev) \<Rightarrow>
               (case os_callee os f of
                  Returns \<Rightarrow> Continue (p\<lparr>trace := trace p @ [ev]\<rparr>)
                | NoReturn \<Rightarrow> Stop (p\<lparr>trace := trace p @ [ev], status := Gone\<rparr>)
                | NotCode \<Rightarrow> Stop (p\<lparr>trace := trace p @ [ev], status := Faulted f\<rparr>)))"
  by (simp add: call_original_handler_def call_through_def split: option.splits)

text \<open>The events the chain step adds.\<close>

lemma original_handler_call_event:
  "original_handler_call old sig = Some (f, ev) \<Longrightarrow>
     ev = CallSigaction f sig \<or> ev = CallHandler f sig"
  by (auto simp: original_handler_call_def split: if_splits)

lemma chain_and_reraise_frame:
  "files (chain_and_reraise os sig p) = files p
   \<and> handling_crash (chain_and_reraise os sig p) = handling_crash p
   \<and> g_crash_file_path (chain_and_reraise os sig p) = g_crash_file_path p
   \<and> g_old_handlers (chain_and_reraise os sig p) = g_old_handlers p
   \<and> g_initialized (chain_and_reraise os sig p) = g_initialized p
   \<and> g_crash_info (chain_and_reraise os sig p) = g_crash_info p"
  by (simp add: chain_and_reraise_def call_original_handler_eq raise_libc_def signal_libc_def
      kernel_default_action_def split: option.splits callee.splits prod.splits)

lemma chain_and_reraise_reports:
  "reports_written (chain_and_reraise os sig p) = reports_written p"
  by (auto simp: chain_and_reraise_def call_original_handler_eq raise_libc_def signal_libc_def
      kernel_default_action_def reports_written_def
      split: option.splits callee.splits prod.splits
      dest: original_handler_call_event)

section \<open>The handler\<close>

lemma handled_signals_small: "sig \<in> set handled_signals \<Longrightarrow> sig < 32 \<and> default_kills sig"
  by (auto simp: handled_signals_def default_kills_def SIGSEGV_def SIGABRT_def SIGFPE_def
      SIGILL_def SIGBUS_def SIGTRAP_def)

lemma signal_handler_reentry:
  "handling_crash p \<Longrightarrow> signal_handler v os sig info context p = p\<lparr>status := Exited 1\<rparr>"
  by (simp add: signal_handler_def)

lemma report_chain_reraise_frame:
  "handling_crash (report_chain_reraise v os sig ci p) = handling_crash p
   \<and> g_crash_file_path (report_chain_reraise v os sig ci p) = g_crash_file_path p
   \<and> g_old_handlers (report_chain_reraise v os sig ci p) = g_old_handlers p
   \<and> g_initialized (report_chain_reraise v os sig ci p) = g_initialized p
   \<and> g_crash_info (report_chain_reraise v os sig ci p) = with_stack_trace v os ci"
  by (simp add: report_chain_reraise_def chain_and_reraise_frame write_crash_to_file_eq)

lemma report_chain_reraise_files:
  "files (report_chain_reraise v os sig ci p) =
     (if os_open_ok os
      then (files p)(g_crash_file_path p \<mapsto>
              report_chunks v (os_dladdr os) (with_stack_trace v os ci))
      else files p)"
  by (simp add: report_chain_reraise_def chain_and_reraise_frame write_crash_to_file_eq)

lemma report_chain_reraise_reports:
  "reports_written (report_chain_reraise v os sig ci p)
     = reports_written p + (if os_open_ok os then 1 else 0)"
proof -
  have "reports_written (report_chain_reraise v os sig ci p)
        = reports_written (write_crash_to_file v os (with_stack_trace v os ci)
                             (p\<lparr>g_crash_info := with_stack_trace v os ci\<rparr>))"
    by (simp add: report_chain_reraise_def chain_and_reraise_reports)
  then show ?thesis
    by (simp add: write_crash_to_file_eq reports_written_def)
qed

lemma reports_written_frame:
  "reports_written (p\<lparr>handling_crash := b\<rparr>) = reports_written p"
  "reports_written (p\<lparr>g_crash_info := c\<rparr>) = reports_written p"
  "reports_written (p\<lparr>status := s\<rparr>) = reports_written p"
  by (simp_all add: reports_written_def)

lemma signal_handler_flag: "handling_crash (signal_handler v os sig info context p)"
  by (simp add: signal_handler_def Let_def report_chain_reraise_frame
      split: variant.splits sum.splits)

lemma signal_handler_reports:
  "reports_written (signal_handler v os sig info context p)
     \<le> reports_written p + (if handling_crash p then 0 else 1)"
  by (simp add: signal_handler_def Let_def report_chain_reraise_reports reports_written_frame
      split: variant.splits sum.splits)

lemma run_faults_after_first:
  "handling_crash p \<Longrightarrow>
     run_faults v p fs = (if fs = [] then p else p\<lparr>status := Exited 1\<rparr>)"
proof (induction fs arbitrary: p)
  case Nil
  then show ?case by (simp add: run_faults_def)
next
  case (Cons f fs)
  let ?q = "p\<lparr>status := Exited 1\<rparr>"
  have step: "deliver v p f = ?q"
    using Cons.prems by (simp add: deliver_def signal_handler_reentry)
  have "handling_crash ?q" using Cons.prems by simp
  from Cons.IH [OF this] have "run_faults v ?q fs = ?q" by (simp split: if_splits)
  then show ?case by (simp add: run_faults_def step)
qed

text \<open>
  Claim C1. Over any sequence of handler entries at most one report is written. An entry that
  finds \<^verbatim>\<open>handling_crash\<close> set changes nothing but the status, which becomes \<^verbatim>\<open>_exit(1)\<close>: no
  file is opened, nothing is called, the flag stays set. Every entry leaves the flag set, so
  after the first entry all later ones are of that kind.
\<close>

theorem one_report_per_process:
  "reports_written (run_faults v p fs)
     \<le> reports_written p + (if handling_crash p then 0 else 1)
   \<and> (handling_crash p \<longrightarrow> deliver v p f = p\<lparr>status := Exited 1\<rparr>)
   \<and> handling_crash (deliver v p f)
   \<and> (handling_crash p \<longrightarrow> handling_crash (run_faults v p fs))
   \<and> run_faults v (deliver v p f) fs
       = (if fs = [] then deliver v p f else (deliver v p f)\<lparr>status := Exited 1\<rparr>)"
proof -
  have flag: "handling_crash (deliver v q g)" for q g
    by (simp add: deliver_def signal_handler_flag)
  have reentry: "handling_crash p \<longrightarrow> deliver v p f = p\<lparr>status := Exited 1\<rparr>"
    by (simp add: deliver_def signal_handler_reentry)
  have kept: "handling_crash p \<longrightarrow> handling_crash (run_faults v p fs)"
    by (simp add: run_faults_after_first)
  have rest: "run_faults v (deliver v p f) fs
       = (if fs = [] then deliver v p f else (deliver v p f)\<lparr>status := Exited 1\<rparr>)"
    by (rule run_faults_after_first [OF flag])
  have count: "reports_written (run_faults v p fs)
     \<le> reports_written p + (if handling_crash p then 0 else 1)"
  proof (cases fs)
    case Nil
    then show ?thesis by (simp add: run_faults_def)
  next
    case (Cons g gs)
    have one: "reports_written (deliver v p g)
                \<le> reports_written p + (if handling_crash p then 0 else 1)"
      by (simp only: deliver_def signal_handler_reports)
    have "run_faults v p fs = run_faults v (deliver v p g) gs"
      by (simp add: Cons run_faults_def)
    also have "\<dots> = (if gs = [] then deliver v p g else (deliver v p g)\<lparr>status := Exited 1\<rparr>)"
      by (rule run_faults_after_first [OF flag])
    finally have "reports_written (run_faults v p fs) = reports_written (deliver v p g)"
      by (simp add: reports_written_frame)
    with one show ?thesis by simp
  qed
  from count reentry flag kept rest show ?thesis by blast
qed

section \<open>The concrete process\<close>

lemmas signal_numbers = SIGSEGV_def SIGABRT_def SIGFPE_def SIGILL_def SIGBUS_def SIGTRAP_def

lemma ex_proc_eq:
  "ex_proc v disp =
     \<lparr>handling_crash = False, g_crash_info = zero_info v,
      g_crash_file_path = ''/data/crash/native_crash.txt'',
      g_old_handlers =
        (\<lambda>_. \<lparr>sa_union = 0, sa_flags = 0, sa_mask = {}\<rparr>)
        (11 := disp 11, 6 := disp 6, 8 := disp 8, 4 := disp 4, 7 := disp 7, 5 := disp 5),
      g_initialized = True,
      dispositions = disp(11 := ex_installed, 6 := ex_installed, 8 := ex_installed,
                          4 := ex_installed, 7 := ex_installed, 5 := ex_installed),
      files = Map.empty, trace = [], status = Running\<rparr>"
  by (simp add: ex_proc_def initialize_def startup_def snprintf_def sigaction_sys_def
      handled_signals_def signal_numbers Let_def ex_installed_def)

lemma ex_os_fields:
  "os_pid (ex_os b) = 100" "os_tid (ex_os b) = 107" "os_time (ex_os b) = 5"
  "os_api (ex_os b) = 26" "os_thread_name (ex_os b) = None"
  "os_memory (ex_os b) = (\<lambda>_. None)" "os_stack (ex_os b) = [16, 0, 32]"
  "os_dladdr (ex_os b) =
     (\<lambda>a. if a = 16 then Some \<lparr>dli_fname = Some ''libx.so'', dli_sname = None, dli_saddr = 10\<rparr>
          else None)"
  "os_open_ok (ex_os b) = b"
  "os_callee (ex_os b) = (\<lambda>a. if a = 1 then NotCode else Returns)"
  by (simp_all add: ex_os_def)

lemma ex_thread_name: "get_thread_name (ex_os b) 128 = ''Thread-107''"
  by (simp add: get_thread_name_def ex_os_fields snprintf_def show_int_def digit_def
      show_nat.simps [of 107] show_nat.simps [of 10] show_nat.simps [of 1])

lemmas ex_run_simps =
  ex_os_fields ex_proc_eq signal_handler_def Let_def
  report_chain_reraise_def write_crash_to_file_eq chain_and_reraise_def
  call_original_handler_eq original_handler_call_def sa_sigaction_def sa_handler_def
  ex_default_def SIG_DFL_def SIG_IGN_def raise_libc_def signal_libc_def
  kernel_default_action_def default_kills_def signal_numbers

lemma ex_first_run:
  "trace (deliver Basic (ex_proc Basic (\<lambda>_. ex_default)) (ex_fault SIGSEGV 0 True))
     = [Open ''/data/crash/native_crash.txt'' True, Close ''/data/crash/native_crash.txt'',
        Raise SIGSEGV]"
  by (simp add: deliver_def ex_fault_def ex_run_simps)

theorem one_report_per_process_witness:
  "reports_written (ex_proc Basic (\<lambda>_. ex_default)) = 0
   \<and> \<not> handling_crash (ex_proc Basic (\<lambda>_. ex_default))
   \<and> reports_written (run_faults Basic (ex_proc Basic (\<lambda>_. ex_default))
        [ex_fault SIGSEGV 0 True, ex_fault SIGABRT 0 True, ex_fault SIGSEGV 0 True]) = 1
   \<and> handling_crash (deliver Basic (ex_proc Basic (\<lambda>_. ex_default)) (ex_fault SIGSEGV 0 True))
   \<and> deliver Basic (deliver Basic (ex_proc Basic (\<lambda>_. ex_default)) (ex_fault SIGSEGV 0 True))
        (ex_fault SIGABRT 0 True)
      = (deliver Basic (ex_proc Basic (\<lambda>_. ex_default)) (ex_fault SIGSEGV 0 True))
          \<lparr>status := Exited 1\<rparr>"
proof -
  let ?p = "ex_proc Basic (\<lambda>_. ex_default)"
  let ?f = "ex_fault SIGSEGV 0 True"
  let ?g = "ex_fault SIGABRT 0 True"
  have none: "reports_written ?p = 0" "\<not> handling_crash ?p"
    by (simp_all add: reports_written_def ex_proc_eq)
  have first: "reports_written (deliver Basic ?p ?f) = 1"
    by (simp add: reports_written_def ex_first_run)
  note all = one_report_per_process [of Basic ?p "[?f, ?g, ?f]" ?f]
  note nxt = one_report_per_process [of Basic "deliver Basic ?p ?f" "[]" ?g]
  have flag: "handling_crash (deliver Basic ?p ?f)" using all by blast
  have again: "deliver Basic (deliver Basic ?p ?f) ?g = (deliver Basic ?p ?f)\<lparr>status := Exited 1\<rparr>"
    using nxt flag by blast
  have "run_faults Basic ?p [?f, ?g, ?f] = run_faults Basic (deliver Basic ?p ?f) [?g, ?f]"
    by (simp add: run_faults_def)
  also have "\<dots> = (deliver Basic ?p ?f)\<lparr>status := Exited 1\<rparr>"
    using one_report_per_process [of Basic ?p "[?g, ?f]" ?f] by simp
  finally have "reports_written (run_faults Basic ?p [?f, ?g, ?f]) = 1"
    using first by (simp add: reports_written_frame)
  with none flag again show ?thesis by blast
qed

section \<open>Chaining and re-raising\<close>

lemma chain_and_reraise_returns:
  assumes "sig < 32" and "default_kills sig"
    and "original_handler_returns os (g_old_handlers p sig) sig"
  shows "chain_and_reraise os sig p =
     p\<lparr>trace := trace p @ chain_events (g_old_handlers p sig) sig @ [Raise sig],
       dispositions := (dispositions p)
         (sig := \<lparr>sa_union = SIG_DFL, sa_flags = SA_RESTART, sa_mask = {}\<rparr>),
       status := Killed sig\<rparr>"
  using assms
  by (simp add: chain_and_reraise_def call_original_handler_eq original_handler_returns_def
      chain_events_def raise_libc_def signal_libc_def kernel_default_action_def sa_handler_def
      split: option.splits prod.splits)

lemma chain_and_reraise_attempt:
  assumes "sig < 32"
  shows "\<exists>rest. trace (chain_and_reraise os sig p)
            = trace p @ chain_events (g_old_handlers p sig) sig @ rest"
  using assms
  by (simp add: chain_and_reraise_def call_original_handler_eq chain_events_def raise_libc_def
      signal_libc_def kernel_default_action_def
      split: option.splits prod.splits callee.splits)

lemma signal_handler_first:
  assumes "\<not> handling_crash p" and "capture_completes v os sig info context"
  shows "\<exists>ci. signal_handler v os sig info context p
               = report_chain_reraise v os sig ci (p\<lparr>handling_crash := True\<rparr>)"
  using assms
  by (auto simp: signal_handler_def capture_completes_def Let_def
      split: variant.splits sum.splits)

text \<open>
  Claim C6. On a first entry for a handled signal whose capture completes and whose chained
  handler (if any) returns, the handler leaves the signal's disposition at the default, the
  last thing it does is to raise the same signal, and the process is killed by that signal:
  the status the kernel's default action gives with no handler in the way.
\<close>

theorem reraise_after_chaining:
  assumes "\<not> handling_crash p"
    and "sig \<in> set handled_signals"
    and "capture_completes v os sig info context"
    and "original_handler_returns os (g_old_handlers p sig) sig"
  shows "sa_handler (dispositions (signal_handler v os sig info context p) sig) = SIG_DFL
    \<and> (\<exists>es. trace (signal_handler v os sig info context p) = trace p @ es @ [Raise sig])
    \<and> status (signal_handler v os sig info context p) = Killed sig
    \<and> status (signal_handler v os sig info context p) = status (kernel_default_action sig p)"
proof -
  from signal_handler_first [OF assms(1,3)] obtain ci
    where run: "signal_handler v os sig info context p
                = report_chain_reraise v os sig ci (p\<lparr>handling_crash := True\<rparr>)"
    by blast
  let ?ci = "with_stack_trace v os ci"
  let ?q = "write_crash_to_file v os ?ci (p\<lparr>handling_crash := True, g_crash_info := ?ci\<rparr>)"
  have sig: "sig < 32" "default_kills sig"
    using handled_signals_small [OF assms(2)] by simp_all
  have old: "g_old_handlers ?q = g_old_handlers p"
    by (simp add: write_crash_to_file_eq)
  have ret: "original_handler_returns os (g_old_handlers ?q sig) sig"
    using assms(4) by (simp add: old)
  have eq: "signal_handler v os sig info context p
     = ?q\<lparr>trace := trace ?q @ chain_events (g_old_handlers ?q sig) sig @ [Raise sig],
          dispositions := (dispositions ?q)
            (sig := \<lparr>sa_union = SIG_DFL, sa_flags = SA_RESTART, sa_mask = {}\<rparr>),
          status := Killed sig\<rparr>"
    unfolding run report_chain_reraise_def
    using chain_and_reraise_returns [OF sig ret] by simp
  have tr: "\<exists>es. trace ?q = trace p @ es"
    by (simp add: write_crash_to_file_eq)
  then obtain es where es: "trace ?q = trace p @ es" by blast
  have "trace (signal_handler v os sig info context p)
        = trace p @ (es @ chain_events (g_old_handlers ?q sig) sig) @ [Raise sig]"
    by (simp add: eq es)
  then have t: "\<exists>es. trace (signal_handler v os sig info context p) = trace p @ es @ [Raise sig]"
    by blast
  have d: "sa_handler (dispositions (signal_handler v os sig info context p) sig) = SIG_DFL"
    by (simp add: eq sa_handler_def)
  have s: "status (signal_handler v os sig info context p) = Killed sig"
    by (simp add: eq)
  have k: "status (kernel_default_action sig p) = Killed sig"
    using sig by (simp add: kernel_default_action_def)
  from d t s k show ?thesis by simp
qed

theorem reraise_after_chaining_witness:
  "\<not> handling_crash (ex_proc Basic (\<lambda>_. ex_previous))
   \<and> SIGSEGV \<in> set handled_signals
   \<and> capture_completes Basic (ex_os True) SIGSEGV \<lparr>si_code = 1, si_addr = 0\<rparr> None
   \<and> original_handler_returns (ex_os True)
        (g_old_handlers (ex_proc Basic (\<lambda>_. ex_previous)) SIGSEGV) SIGSEGV
   \<and> sa_handler (dispositions
        (signal_handler Basic (ex_os True) SIGSEGV \<lparr>si_code = 1, si_addr = 0\<rparr> None
           (ex_proc Basic (\<lambda>_. ex_previous))) SIGSEGV) = SIG_DFL
   \<and> trace (signal_handler Basic (ex_os True) SIGSEGV \<lparr>si_code = 1, si_addr = 0\<rparr> None
              (ex_proc Basic (\<lambda>_. ex_previous)))
      = [Open ''/data/crash/native_crash.txt'' True, Close ''/data/crash/native_crash.txt'',
         CallSigaction 8192 SIGSEGV, Raise SIGSEGV]
   \<and> status (signal_handler Basic (ex_os True) SIGSEGV \<lparr>si_code = 1, si_addr = 0\<rparr> None
               (ex_proc Basic (\<lambda>_. ex_previous))) = Killed SIGSEGV"
proof -
  let ?p = "ex_proc Basic (\<lambda>_. ex_previous)"
  let ?i = "\<lparr>si_code = 1, si_addr = 0\<rparr>"
  have h1: "\<not> handling_crash ?p" by (simp add: ex_proc_eq)
  have h2: "SIGSEGV \<in> set handled_signals" by (simp add: handled_signals_def)
  have h3: "capture_completes Basic (ex_os True) SIGSEGV ?i None"
    by (simp add: capture_completes_def)
  have h4: "original_handler_returns (ex_os True) (g_old_handlers ?p SIGSEGV) SIGSEGV"
    by (simp add: original_handler_returns_def original_handler_call_def sa_sigaction_def
        ex_proc_eq ex_previous_def ex_os_fields signal_numbers)
  have tr: "trace (signal_handler Basic (ex_os True) SIGSEGV ?i None ?p)
      = [Open ''/data/crash/native_crash.txt'' True, Close ''/data/crash/native_crash.txt'',
         CallSigaction 8192 SIGSEGV, Raise SIGSEGV]"
    by (simp add: ex_run_simps ex_previous_def)
  from reraise_after_chaining [OF h1 h2 h3 h4] h1 h2 h3 h4 tr show ?thesis by blast
qed

section \<open>Installation\<close>

lemma initialize_sets_flag: "g_initialized (initialize self crash_dir p)"
  by (simp add: initialize_def Let_def)

text \<open>
  Claim C4. A second call of \<^verbatim>\<open>initialize\<close> changes nothing: the table of saved dispositions,
  the report path and the flag (and the kernel's dispositions, and all the rest of the state)
  are after two calls what they were after one, whatever the arguments of the second call.
\<close>

theorem initialize_idempotent:
  "initialize self2 dir2 (initialize self1 dir1 p) = initialize self1 dir1 p
   \<and> g_old_handlers (initialize self2 dir2 (initialize self1 dir1 p))
       = g_old_handlers (initialize self1 dir1 p)
   \<and> g_crash_file_path (initialize self2 dir2 (initialize self1 dir1 p))
       = g_crash_file_path (initialize self1 dir1 p)
   \<and> g_initialized (initialize self2 dir2 (initialize self1 dir1 p))
       = g_initialized (initialize self1 dir1 p)
   \<and> dispositions (initialize self2 dir2 (initialize self1 dir1 p))
       = dispositions (initialize self1 dir1 p)
   \<and> isInitialized (initialize self1 dir1 p)"
proof -
  have "initialize self2 dir2 (initialize self1 dir1 p) = initialize self1 dir1 p"
    using initialize_sets_flag [of self1 dir1 p] by (simp add: initialize_def [of self2])
  then show ?thesis
    by (simp add: isInitialized_def initialize_sets_flag)
qed

section \<open>The report file: path and content\<close>

lemma initialize_path:
  "\<not> g_initialized p \<Longrightarrow>
     g_crash_file_path (initialize self crash_dir p) = take 255 (crash_dir @ ''/native_crash.txt'')"
proof -
  assume fresh: "\<not> g_initialized p"
  have keep: "g_crash_file_path (foldl (\<lambda>q sig. sigaction_sys sig sa q) q0 sigs)
              = g_crash_file_path q0" for sa q0 sigs
    by (induction sigs arbitrary: q0) (simp_all add: sigaction_sys_def)
  show ?thesis
    using fresh by (simp add: initialize_def Let_def keep snprintf_def)
qed

lemma signal_handler_path:
  "g_crash_file_path (signal_handler v os sig info context p) = g_crash_file_path p"
  by (simp add: signal_handler_def Let_def report_chain_reraise_frame
      split: variant.splits sum.splits)

lemma signal_handler_files_first:
  assumes "\<not> handling_crash p" and "capture_completes v os sig info context"
    and "os_open_ok os"
  shows "files (signal_handler v os sig info context p)
         = (files p)(g_crash_file_path p \<mapsto>
              report_chunks v (os_dladdr os) (g_crash_info (signal_handler v os sig info context p)))"
proof -
  from signal_handler_first [OF assms(1,2)] obtain ci
    where run: "signal_handler v os sig info context p
                = report_chain_reraise v os sig ci (p\<lparr>handling_crash := True\<rparr>)"
    by blast
  show ?thesis
    unfolding run using assms(3)
    by (simp add: report_chain_reraise_files report_chain_reraise_frame)
qed

lemma signal_handler_files:
  "files (signal_handler v os sig info context p) = files p
   \<or> files (signal_handler v os sig info context p)
       = (files p)(g_crash_file_path p \<mapsto>
            report_chunks v (os_dladdr os) (g_crash_info (signal_handler v os sig info context p)))"
proof (cases "\<not> handling_crash p \<and> capture_completes v os sig info context \<and> os_open_ok os")
  case True
  then show ?thesis using signal_handler_files_first by blast
next
  case False
  have "files (signal_handler v os sig info context p) = files p"
  proof (cases "handling_crash p")
    case True
    then show ?thesis by (simp add: signal_handler_reentry)
  next
    case first: False
    show ?thesis
    proof (cases "capture_completes v os sig info context")
      case True
      with False first have closed: "\<not> os_open_ok os" by simp
      from signal_handler_first [OF first True] obtain ci
        where run: "signal_handler v os sig info context p
                    = report_chain_reraise v os sig ci (p\<lparr>handling_crash := True\<rparr>)"
        by blast
      show ?thesis unfolding run using closed by (simp add: report_chain_reraise_files)
    next
      case False
      with first show ?thesis
        by (simp add: signal_handler_def capture_completes_def Let_def
            split: variant.splits sum.splits)
    qed
  qed
  then show ?thesis by simp
qed

text \<open>
  Claim C7, amended. The report path is \<open>crash_dir/native_crash.txt\<close> cut to the 255
  characters the path buffer holds, so exactly that path when it is at most 255 characters
  long. The handler never changes the path. A run of the handler either leaves the file system
  as it was, or leaves at the path exactly the chunks of its own report, whatever the file held
  before: the file is made anew, never appended to. The second is what happens on a first
  entry whose capture completes and whose \<^verbatim>\<open>open\<close> succeeds.
\<close>

theorem report_path_and_fresh_file:
  "(\<not> g_initialized p \<longrightarrow>
      g_crash_file_path (initialize self crash_dir p) = take 255 (crash_dir @ ''/native_crash.txt''))
   \<and> (\<not> g_initialized p \<and> length crash_dir \<le> 238 \<longrightarrow>
      g_crash_file_path (initialize self crash_dir p) = crash_dir @ ''/native_crash.txt'')
   \<and> g_crash_file_path (signal_handler v os sig info context q) = g_crash_file_path q
   \<and> (files (signal_handler v os sig info context q) = files q
      \<or> files (signal_handler v os sig info context q)
          = (files q)(g_crash_file_path q \<mapsto>
               report_chunks v (os_dladdr os)
                 (g_crash_info (signal_handler v os sig info context q))))
   \<and> (\<not> handling_crash q \<and> capture_completes v os sig info context \<and> os_open_ok os \<longrightarrow>
        files (signal_handler v os sig info context q)
          = (files q)(g_crash_file_path q \<mapsto>
               report_chunks v (os_dladdr os)
                 (g_crash_info (signal_handler v os sig info context q))))"
proof -
  have fits: "\<not> g_initialized p \<and> length crash_dir \<le> 238 \<longrightarrow>
      g_crash_file_path (initialize self crash_dir p) = crash_dir @ ''/native_crash.txt''"
  proof
    assume a: "\<not> g_initialized p \<and> length crash_dir \<le> 238"
    have "length ''/native_crash.txt'' = 17" by simp
    with a have "length (crash_dir @ ''/native_crash.txt'') \<le> 255"
      unfolding length_append by linarith
    then have "take 255 (crash_dir @ ''/native_crash.txt'') = crash_dir @ ''/native_crash.txt''"
      by (rule take_all)
    with a show "g_crash_file_path (initialize self crash_dir p) = crash_dir @ ''/native_crash.txt''"
      using initialize_path [of p self crash_dir] by simp
  qed
  show ?thesis
    using fits initialize_path [of p self crash_dir] signal_handler_path [of v os sig info "context" q]
      signal_handler_files [of v os sig info "context" q]
      signal_handler_files_first [of q v os sig info "context"]
    by blast
qed

text \<open>A directory of 239 characters: the path buffer holds the name short of its last letter.\<close>

theorem report_path_truncated_counterexample:
  "g_crash_file_path
      (initialize 4096 (replicate 239 CHR ''d'') (startup Basic (\<lambda>_. ex_default) Map.empty))
     \<noteq> replicate 239 CHR ''d'' @ ''/native_crash.txt''
   \<and> g_crash_file_path
      (initialize 4096 (replicate 239 CHR ''d'') (startup Basic (\<lambda>_. ex_default) Map.empty))
     = replicate 239 CHR ''d'' @ ''/native_crash.tx''"
proof -
  let ?p = "startup Basic (\<lambda>_. ex_default) Map.empty"
  let ?dir = "replicate 239 CHR ''d''"
  have fresh: "\<not> g_initialized ?p" by (simp add: startup_def)
  have "g_crash_file_path (initialize 4096 ?dir ?p) = take 255 (?dir @ ''/native_crash.txt'')"
    by (rule initialize_path [OF fresh])
  also have "\<dots> = ?dir @ take 16 ''/native_crash.txt''" by simp
  also have "\<dots> = ?dir @ ''/native_crash.tx''" by simp
  finally have cut: "g_crash_file_path (initialize 4096 ?dir ?p) = ?dir @ ''/native_crash.tx''" .
  have "?dir @ ''/native_crash.tx'' \<noteq> ?dir @ ''/native_crash.txt''" by simp
  with cut show ?thesis by simp
qed

theorem report_path_and_fresh_file_witness:
  "\<not> g_initialized (startup Basic (\<lambda>_. ex_default) Map.empty)
   \<and> length ''/data/crash'' \<le> 238
   \<and> g_crash_file_path (initialize 4096 ''/data/crash'' (startup Basic (\<lambda>_. ex_default) Map.empty))
       = ''/data/crash/native_crash.txt''
   \<and> \<not> handling_crash (ex_proc Basic (\<lambda>_. ex_default))
   \<and> capture_completes Basic (ex_os True) SIGSEGV \<lparr>si_code = 1, si_addr = 0\<rparr> None
   \<and> os_open_ok (ex_os True)
   \<and> files (signal_handler Basic (ex_os True) SIGSEGV \<lparr>si_code = 1, si_addr = 0\<rparr> None
              ((ex_proc Basic (\<lambda>_. ex_default))
                 \<lparr>files := [''/data/crash/native_crash.txt'' \<mapsto> [Text ''old'']]\<rparr>))
        ''/data/crash/native_crash.txt''
       = Some [Header Basic ''SIGSEGV'' 11 ''Segmentation fault (invalid memory access)'' 1 0
                 ''Thread-107'' 100 107 5 2,
               Text ''Stack Trace:\<newline>'',
               FrameSym Basic 0 16 ''libx.so'' ''???'' 6,
               FrameUnknown Basic 1 32]"
proof -
  let ?p = "startup Basic (\<lambda>_. ex_default) Map.empty"
  let ?q = "(ex_proc Basic (\<lambda>_. ex_default))
              \<lparr>files := [''/data/crash/native_crash.txt'' \<mapsto> [Text ''old'']]\<rparr>"
  let ?i = "\<lparr>si_code = 1, si_addr = 0\<rparr>"
  have h1: "\<not> g_initialized ?p" by (simp add: startup_def)
  have h2: "length ''/data/crash'' \<le> 238" by simp
  have h3: "\<not> handling_crash (ex_proc Basic (\<lambda>_. ex_default))" "\<not> handling_crash ?q"
    by (simp_all add: ex_proc_eq)
  have h4: "capture_completes Basic (ex_os True) SIGSEGV ?i None"
    by (simp add: capture_completes_def)
  have h5: "os_open_ok (ex_os True)" by (simp add: ex_os_fields)
  note inst = report_path_and_fresh_file [of ?p 4096 "''/data/crash''" Basic "ex_os True" SIGSEGV ?i None ?q]
  have path: "g_crash_file_path (initialize 4096 ''/data/crash'' ?p) = ''/data/crash/native_crash.txt''"
    using inst h1 h2 by simp
  have qpath: "g_crash_file_path ?q = ''/data/crash/native_crash.txt''"
    by (simp add: ex_proc_eq)
  have info: "report_chunks Basic (os_dladdr (ex_os True))
                (g_crash_info (signal_handler Basic (ex_os True) SIGSEGV ?i None ?q))
       = [Header Basic ''SIGSEGV'' 11 ''Segmentation fault (invalid memory access)'' 1 0
                 ''Thread-107'' 100 107 5 2,
               Text ''Stack Trace:\<newline>'',
               FrameSym Basic 0 16 ''libx.so'' ''???'' 6,
               FrameUnknown Basic 1 32]"
    by (simp add: ex_thread_name ex_run_simps report_chain_reraise_frame collect_crash_info_def
        zero_info_def with_stack_trace_def capture_stack_trace_def capture_stack_trace_state_def
        unwind_callback_def MAX_STACK_FRAMES_def report_chunks_def stack_lines_def
        frame_line_def strncpy_def get_signal_name_def get_signal_description_def)
  have "files (signal_handler Basic (ex_os True) SIGSEGV ?i None ?q)
          = (files ?q)(g_crash_file_path ?q \<mapsto>
               report_chunks Basic (os_dladdr (ex_os True))
                 (g_crash_info (signal_handler Basic (ex_os True) SIGSEGV ?i None ?q)))"
    using inst h3 h4 h5 by blast
  then have "files (signal_handler Basic (ex_os True) SIGSEGV ?i None ?q) ''/data/crash/native_crash.txt''
      = Some (report_chunks Basic (os_dladdr (ex_os True))
                 (g_crash_info (signal_handler Basic (ex_os True) SIGSEGV ?i None ?q)))"
    by (simp add: qpath)
  with info h1 h2 h3 h4 h5 path show ?thesis by simp
qed

section \<open>The report file cannot be created\<close>

text \<open>
  Claim C9. On a first entry for a handled signal whose capture completes, when \<^verbatim>\<open>open\<close> of
  the report file fails: no file is touched and no report is counted; the failed open is
  followed at once by the chained call the saved disposition selects (if any); and when that
  call returns (or none is made) the run ends as every run does, the disposition reset to the
  default and the signal raised, the process killed by it.
\<close>

theorem report_file_failure:
  assumes "\<not> handling_crash p"
    and "sig \<in> set handled_signals"
    and "capture_completes v os sig info context"
    and "\<not> os_open_ok os"
  shows "files (signal_handler v os sig info context p) = files p
    \<and> reports_written (signal_handler v os sig info context p) = reports_written p
    \<and> (\<exists>rest. trace (signal_handler v os sig info context p)
           = trace p @ [Open (g_crash_file_path p) False]
             @ chain_events (g_old_handlers p sig) sig @ rest)
    \<and> (original_handler_returns os (g_old_handlers p sig) sig \<longrightarrow>
         trace (signal_handler v os sig info context p)
           = trace p @ [Open (g_crash_file_path p) False]
             @ chain_events (g_old_handlers p sig) sig @ [Raise sig]
         \<and> sa_handler (dispositions (signal_handler v os sig info context p) sig) = SIG_DFL
         \<and> status (signal_handler v os sig info context p) = Killed sig)"
proof -
  from signal_handler_first [OF assms(1,3)] obtain ci
    where run: "signal_handler v os sig info context p
                = report_chain_reraise v os sig ci (p\<lparr>handling_crash := True\<rparr>)"
    by blast
  let ?ci = "with_stack_trace v os ci"
  let ?q = "p\<lparr>handling_crash := True, g_crash_info := ?ci,
              trace := trace p @ [Open (g_crash_file_path p) False]\<rparr>"
  have sig: "sig < 32" "default_kills sig"
    using handled_signals_small [OF assms(2)] by simp_all
  have eq: "signal_handler v os sig info context p = chain_and_reraise os sig ?q"
    unfolding run report_chain_reraise_def using assms(4)
    by (simp add: write_crash_to_file_eq)
  have f: "files (signal_handler v os sig info context p) = files p"
    by (simp add: eq chain_and_reraise_frame)
  have "reports_written ?q = reports_written p"
    by (simp add: reports_written_def)
  then have r: "reports_written (signal_handler v os sig info context p) = reports_written p"
    by (simp only: eq chain_and_reraise_reports)
  have a: "\<exists>rest. trace (signal_handler v os sig info context p)
           = trace p @ [Open (g_crash_file_path p) False]
             @ chain_events (g_old_handlers p sig) sig @ rest"
    using chain_and_reraise_attempt [OF sig(1), of os ?q] by (simp add: eq)
  have b: "original_handler_returns os (g_old_handlers p sig) sig \<longrightarrow>
         trace (signal_handler v os sig info context p)
           = trace p @ [Open (g_crash_file_path p) False]
             @ chain_events (g_old_handlers p sig) sig @ [Raise sig]
         \<and> sa_handler (dispositions (signal_handler v os sig info context p) sig) = SIG_DFL
         \<and> status (signal_handler v os sig info context p) = Killed sig"
  proof
    assume "original_handler_returns os (g_old_handlers p sig) sig"
    then have "original_handler_returns os (g_old_handlers ?q sig) sig" by simp
    from chain_and_reraise_returns [OF sig this]
    show "trace (signal_handler v os sig info context p)
           = trace p @ [Open (g_crash_file_path p) False]
             @ chain_events (g_old_handlers p sig) sig @ [Raise sig]
         \<and> sa_handler (dispositions (signal_handler v os sig info context p) sig) = SIG_DFL
         \<and> status (signal_handler v os sig info context p) = Killed sig"
      by (simp add: eq sa_handler_def)
  qed
  from f r a b show ?thesis by blast
qed

theorem report_file_failure_witness:
  "\<not> handling_crash (ex_proc Enhanced (\<lambda>_. ex_previous))
   \<and> SIGBUS \<in> set handled_signals
   \<and> capture_completes Enhanced (ex_os False) SIGBUS \<lparr>si_code = 1, si_addr = 0\<rparr> None
   \<and> \<not> os_open_ok (ex_os False)
   \<and> original_handler_returns (ex_os False)
        (g_old_handlers (ex_proc Enhanced (\<lambda>_. ex_previous)) SIGBUS) SIGBUS
   \<and> files (signal_handler Enhanced (ex_os False) SIGBUS \<lparr>si_code = 1, si_addr = 0\<rparr> None
              (ex_proc Enhanced (\<lambda>_. ex_previous))) = Map.empty
   \<and> trace (signal_handler Enhanced (ex_os False) SIGBUS \<lparr>si_code = 1, si_addr = 0\<rparr> None
              (ex_proc Enhanced (\<lambda>_. ex_previous)))
       = [Open ''/data/crash/native_crash.txt'' False, CallSigaction 8192 SIGBUS, Raise SIGBUS]
   \<and> status (signal_handler Enhanced (ex_os False) SIGBUS \<lparr>si_code = 1, si_addr = 0\<rparr> None
               (ex_proc Enhanced (\<lambda>_. ex_previous))) = Killed SIGBUS"
proof -
  let ?p = "ex_proc Enhanced (\<lambda>_. ex_previous)"
  let ?i = "\<lparr>si_code = 1, si_addr = 0\<rparr>"
  have h1: "\<not> handling_crash ?p" by (simp add: ex_proc_eq)
  have h2: "SIGBUS \<in> set handled_signals" by (simp add: handled_signals_def)
  have h3: "capture_completes Enhanced (ex_os False) SIGBUS ?i None"
    by (simp add: capture_completes_def capture_memory_dump_def capture_registers_def
        collect_crash_info_def zero_info_def Let_def)
  have h4: "\<not> os_open_ok (ex_os False)" by (simp add: ex_os_fields)
  have h5: "original_handler_returns (ex_os False) (g_old_handlers ?p SIGBUS) SIGBUS"
    by (simp add: original_handler_returns_def original_handler_call_def sa_sigaction_def
        ex_proc_eq ex_previous_def ex_os_fields signal_numbers)
  have old: "g_old_handlers ?p SIGBUS = ex_previous" "g_crash_file_path ?p = ''/data/crash/native_crash.txt''"
    "trace ?p = []" "files ?p = Map.empty"
    by (simp_all add: ex_proc_eq signal_numbers)
  have ev: "chain_events ex_previous SIGBUS = [CallSigaction 8192 SIGBUS]"
    by (simp add: chain_events_def original_handler_call_def sa_sigaction_def ex_previous_def)
  from report_file_failure [OF h1 h2 h3 h4] h5 h1 h2 h3 h4 show ?thesis
    by (simp add: old ev)
qed

section \<open>The memory dump\<close>

lemma read_bytes_unreadable: "0 < n \<Longrightarrow> mem a = None \<Longrightarrow> read_bytes mem a n = Inl a"
  by (cases n) simp_all

lemma read_bytes_content:
  "read_bytes mem a n = Inr bs \<Longrightarrow> bs = map (\<lambda>i. the (mem (a + of_nat i))) [0..<n]"
proof (induction n arbitrary: a bs)
  case 0
  then show ?case by simp
next
  case (Suc n)
  from Suc.prems obtain b bs' where b: "mem a = Some b"
    and rest: "read_bytes mem (a + 1) n = Inr bs'" and bs: "bs = b # bs'"
    by (auto split: option.splits sum.splits)
  have "bs' = map (\<lambda>i. the (mem (a + 1 + of_nat i))) [0..<n]"
    by (rule Suc.IH [OF rest])
  then have "bs' = map (\<lambda>i. the (mem (a + of_nat (Suc i)))) [0..<n]"
    by (simp add: add.assoc)
  with b bs show ?case
    by (simp only: map_upt_Suc) simp
qed

lemma read_bytes_readable:
  "(\<forall>i<n. mem (a + of_nat i) \<noteq> None) \<Longrightarrow> \<exists>bs. read_bytes mem a n = Inr bs"
proof (induction n arbitrary: a)
  case 0
  then show ?case by simp
next
  case (Suc n)
  from Suc.prems [rule_format, of 0] obtain b where b: "mem a = Some b" by auto
  have "\<forall>i<n. mem (a + 1 + of_nat i) \<noteq> None"
  proof (intro allI impI)
    fix i assume "i < n"
    then have "mem (a + of_nat (Suc i)) \<noteq> None" using Suc.prems by blast
    then show "mem (a + 1 + of_nat i) \<noteq> None" by (simp add: add.assoc)
  qed
  from Suc.IH [OF this] obtain bs where "read_bytes mem (a + 1) n = Inr bs" by blast
  with b show ?case by simp
qed

text \<open>Where the whole window can be read, the two buffers hold the memory's content.\<close>

lemma capture_memory_dump_readable:
  assumes "capture_memory_dump mem info = Inr info'" and "fault_address info \<noteq> 0"
  shows "memory_readable info'
    \<and> memory_before info'
        = map (\<lambda>i. the (mem (fault_address info - 256 + of_nat i))) [0..<256]
    \<and> memory_after info' = map (\<lambda>i. the (mem (fault_address info + of_nat i))) [0..<256]"
  using assms
  by (auto simp: capture_memory_dump_def Let_def MEMORY_DUMP_SIZE_def
      split: sum.splits dest!: read_bytes_content)

text \<open>Where the whole window can be read, the capture returns.\<close>

lemma capture_memory_dump_completes:
  assumes "\<forall>i<256. mem (fault_address info - 256 + of_nat i) \<noteq> None"
    and "\<forall>i<256. mem (fault_address info + of_nat i) \<noteq> None"
  shows "\<exists>info'. capture_memory_dump mem info = Inr info'"
proof -
  from read_bytes_readable [OF assms(1)] obtain bs
    where bs: "read_bytes mem (fault_address info - 256) 256 = Inr bs" by blast
  from read_bytes_readable [OF assms(2)] obtain cs
    where cs: "read_bytes mem (fault_address info) 256 = Inr cs" by blast
  show ?thesis
    using bs cs by (simp add: capture_memory_dump_def Let_def MEMORY_DUMP_SIZE_def)
qed

text \<open>Where its first byte cannot be read, the copy faults there.\<close>

lemma capture_memory_dump_faults:
  assumes "fault_address info \<noteq> 0" and "mem (fault_address info - 256) = None"
  shows "capture_memory_dump mem info = Inl (fault_address info - 256)"
  using assms
  by (simp add: capture_memory_dump_def Let_def MEMORY_DUMP_SIZE_def read_bytes_unreadable)

text \<open>
  Claim C2 (the code does otherwise). With the fault address \<^verbatim>\<open>0xDEADBEEF\<close> of the
  repository's own test crash and no readable memory there, \<^verbatim>\<open>capture_memory_dump\<close> does not
  return with \<open>memory_readable = false\<close>: its first copy faults, at \<^verbatim>\<open>0xDEADBEEF - 256\<close>.
\<close>

theorem memory_dump_faults_on_unreadable:
  "capture_memory_dump (os_memory (ex_os True))
     ((zero_info Enhanced)\<lparr>fault_address := 0xDEADBEEF\<rparr>) = Inl 0xDEADBDEF"
proof -
  let ?info = "(zero_info Enhanced)\<lparr>fault_address := 0xDEADBEEF\<rparr>"
  have a: "fault_address ?info \<noteq> 0" by simp
  have m: "os_memory (ex_os True) (fault_address ?info - 256) = None"
    by (simp add: ex_os_fields)
  from capture_memory_dump_faults [of ?info "os_memory (ex_os True)", OF a m]
  show ?thesis by simp
qed

section \<open>The chained handler\<close>

text \<open>A saved default disposition is never called; every other saved value is, the ignore
  sentinel among them: the first test, of \<^verbatim>\<open>sa_sigaction\<close>, reads the storage that holds it.\<close>

lemma original_handler_call_eq:
  "original_handler_call old sig =
     (if sa_handler old = SIG_DFL then None
      else Some (sa_handler old, CallSigaction (sa_handler old) sig))"
  by (simp add: original_handler_call_def sa_sigaction_def sa_handler_def SIG_DFL_def)

lemma default_never_called:
  "sa_handler old = SIG_DFL \<Longrightarrow> chain_events old sig = []"
  by (simp add: chain_events_def original_handler_call_eq)

text \<open>
  Claim C3 (the code does otherwise). \<^verbatim>\<open>SIGTRAP\<close> was ignored before \<^verbatim>\<open>initialize\<close>; the
  kernel hands that disposition back with the value \<^verbatim>\<open>SIG_IGN\<close> in the storage the two handler
  members share. The handler's first test, of \<^verbatim>\<open>sa_sigaction\<close>, is then true: after the report
  it calls address 1 as a function, and faults there.
\<close>

theorem ignored_disposition_is_called:
  "sa_handler ex_ignore = SIG_IGN
   \<and> original_handler_call ex_ignore SIGTRAP = Some (SIG_IGN, CallSigaction SIG_IGN SIGTRAP)
   \<and> g_old_handlers (ex_proc Basic (\<lambda>_. ex_ignore)) SIGTRAP = ex_ignore
   \<and> trace (signal_handler Basic (ex_os True) SIGTRAP \<lparr>si_code = 1, si_addr = 0\<rparr> None
              (ex_proc Basic (\<lambda>_. ex_ignore)))
       = [Open ''/data/crash/native_crash.txt'' True, Close ''/data/crash/native_crash.txt'',
          CallSigaction SIG_IGN SIGTRAP]
   \<and> status (signal_handler Basic (ex_os True) SIGTRAP \<lparr>si_code = 1, si_addr = 0\<rparr> None
              (ex_proc Basic (\<lambda>_. ex_ignore))) = Faulted SIG_IGN"
  by (simp add: ex_run_simps ex_ignore_def call_through_def)

section \<open>Failures of the capture's steps\<close>

text \<open>The steps that do substitute a placeholder: the thread name, and the line of a frame
  whose symbol cannot be resolved; every captured frame gets its line.\<close>

lemma get_thread_name_placeholder:
  "os_thread_name os = None \<or> os_api os < 26 \<Longrightarrow>
     get_thread_name os 128 = take 127 (''Thread-'' @ show_int (os_tid os))"
  by (auto simp: get_thread_name_def snprintf_def)

lemma frame_line_unresolved:
  "dladdr (stack_frames info ! i) = None \<Longrightarrow>
     frame_line v dladdr info i = FrameUnknown v i (stack_frames info ! i)"
  by (simp add: frame_line_def)

lemma stack_lines_all_frames:
  "length (stack_lines v dladdr info) = frame_count info
   \<and> (\<forall>i<frame_count info. stack_lines v dladdr info ! i = frame_line v dladdr info i)"
  by (simp add: stack_lines_def)

text \<open>
  Claim C8 (the code does otherwise). One step of the capture has no placeholder: in the
  enhanced handler a fault address whose surroundings cannot be read makes the memory dump
  fault, and the run ends there. Nothing of the report is written: no file, no open.
\<close>

theorem memory_fault_aborts_report:
  "status (signal_handler Enhanced (ex_os True) SIGSEGV \<lparr>si_code = 1, si_addr = 0xDEADBEEF\<rparr>
             None (ex_proc Enhanced (\<lambda>_. ex_default))) = Faulted 0xDEADBDEF
   \<and> trace (signal_handler Enhanced (ex_os True) SIGSEGV \<lparr>si_code = 1, si_addr = 0xDEADBEEF\<rparr>
             None (ex_proc Enhanced (\<lambda>_. ex_default))) = []
   \<and> files (signal_handler Enhanced (ex_os True) SIGSEGV \<lparr>si_code = 1, si_addr = 0xDEADBEEF\<rparr>
             None (ex_proc Enhanced (\<lambda>_. ex_default))) = Map.empty
   \<and> reports_written (signal_handler Enhanced (ex_os True) SIGSEGV
             \<lparr>si_code = 1, si_addr = 0xDEADBEEF\<rparr> None (ex_proc Enhanced (\<lambda>_. ex_default))) = 0"
proof -
  let ?ci = "capture_registers
               (collect_crash_info Enhanced (ex_os True) SIGSEGV \<lparr>si_code = 1, si_addr = 0xDEADBEEF\<rparr>)
               None"
  have a: "fault_address ?ci \<noteq> 0"
    by (simp add: capture_registers_def collect_crash_info_def)
  have m: "os_memory (ex_os True) (fault_address ?ci - 256) = None"
    by (simp add: ex_os_fields)
  have "capture_memory_dump (os_memory (ex_os True)) ?ci = Inl (fault_address ?ci - 256)"
    by (rule capture_memory_dump_faults [of ?ci "os_memory (ex_os True)", OF a m])
  moreover have "fault_address ?ci - 256 = 0xDEADBDEF"
    by (simp add: capture_registers_def collect_crash_info_def)
  ultimately have "capture_memory_dump (os_memory (ex_os True)) ?ci = Inl 0xDEADBDEF"
    by simp
  then show ?thesis
    by (simp add: signal_handler_def Let_def ex_proc_eq reports_written_def)
qed

section \<open>The stack trace in the report\<close>

text \<open>In the handler the array has room for the maximum, so the bound and the content of the
  trace hold for the crash information of every first entry whose capture completes.\<close>

lemma capture_memory_dump_frames:
  "capture_memory_dump mem info = Inr info' \<Longrightarrow> stack_frames info' = stack_frames info"
  by (auto simp: capture_memory_dump_def Let_def split: if_splits sum.splits)

lemma with_stack_trace_bounded:
  assumes "length (stack_frames info) = MAX_STACK_FRAMES v"
  shows "frame_count (with_stack_trace v os info) \<le> MAX_STACK_FRAMES v
    \<and> take (frame_count (with_stack_trace v os info)) (stack_frames (with_stack_trace v os info))
        = take (MAX_STACK_FRAMES v) (filter (\<lambda>pc. pc \<noteq> 0) (os_stack os))"
proof -
  let ?s0 = "\<lparr>us_frames = stack_frames info, us_frame_count = 0,
              us_max_frames = MAX_STACK_FRAMES v\<rparr>"
  have "us_frame_count (snd (Unwind_Backtrace (os_stack os) ?s0)) \<le> MAX_STACK_FRAMES v"
    using Unwind_Backtrace_count [of ?s0 "os_stack os"] by simp
  moreover have "take (us_frame_count (snd (Unwind_Backtrace (os_stack os) ?s0)))
                   (us_frames (snd (Unwind_Backtrace (os_stack os) ?s0)))
                 = take (MAX_STACK_FRAMES v) (filter (\<lambda>pc. pc \<noteq> 0) (os_stack os))"
    using Unwind_Backtrace_trace [of ?s0 "os_stack os"] assms by simp
  ultimately show ?thesis
    by (simp add: with_stack_trace_def capture_stack_trace_def capture_stack_trace_state_def
        Let_def)
qed

lemma handler_trace_bounded:
  assumes "\<not> handling_crash p" and "capture_completes v os sig info context"
  shows "frame_count (g_crash_info (signal_handler v os sig info context p)) \<le> MAX_STACK_FRAMES v
    \<and> take (frame_count (g_crash_info (signal_handler v os sig info context p)))
           (stack_frames (g_crash_info (signal_handler v os sig info context p)))
        = take (MAX_STACK_FRAMES v) (filter (\<lambda>pc. pc \<noteq> 0) (os_stack os))"
proof -
  have len0: "length (stack_frames (capture_registers (collect_crash_info v os sig info) context))
              = MAX_STACK_FRAMES v"
    by (simp add: capture_registers_def collect_crash_info_def zero_info_def split: option.splits)
  have "\<exists>ci. length (stack_frames ci) = MAX_STACK_FRAMES v
           \<and> g_crash_info (signal_handler v os sig info context p) = with_stack_trace v os ci"
  proof (cases v)
    case Basic
    have "length (stack_frames (collect_crash_info v os sig info)) = MAX_STACK_FRAMES v"
      by (simp add: collect_crash_info_def zero_info_def)
    moreover have "g_crash_info (signal_handler v os sig info context p)
                   = with_stack_trace v os (collect_crash_info v os sig info)"
      using assms(1) Basic by (simp add: signal_handler_def Let_def report_chain_reraise_frame)
    ultimately show ?thesis by blast
  next
    case Enhanced
    with assms(2) obtain ci
      where ci: "capture_memory_dump (os_memory os)
                   (capture_registers (collect_crash_info v os sig info) context) = Inr ci"
      by (auto simp: capture_completes_def split: sum.splits)
    have "length (stack_frames ci) = MAX_STACK_FRAMES v"
      using capture_memory_dump_frames [OF ci] len0 by simp
    moreover have "g_crash_info (signal_handler v os sig info context p) = with_stack_trace v os ci"
      using assms(1) Enhanced ci
      by (simp add: signal_handler_def Let_def report_chain_reraise_frame)
    ultimately show ?thesis by blast
  qed
  then obtain ci where "length (stack_frames ci) = MAX_STACK_FRAMES v"
    and "g_crash_info (signal_handler v os sig info context p) = with_stack_trace v os ci"
    by blast
  with with_stack_trace_bounded [of ci v os] show ?thesis by simp
qed

end
